theory Spec2Isabelle
  imports Main "HOL-Library.AList" "HOL-Library.Sublist"
begin

section \<open>JSON values and the platform\<close>

text \<open>
  The cache of \<^verbatim>\<open>ChatMessageCache.ts\<close> keeps JSON texts in the browser's
  \<^verbatim>\<open>localStorage\<close>. TypeScript types are erased at run time, so what
  \<^verbatim>\<open>JSON.parse\<close> returns is an arbitrary JSON value. Numbers are the integers
  the code works with (epoch milliseconds, avatar indices). The fields of an
  object are an association list, read with \<open>map_of\<close>.
\<close>

datatype json =
    JNull
  | JBool bool
  | JNum int
  | JStr string
  | JArr "json list"
  | JObj "(string \<times> json) list"

text \<open>
  A stored string is observed by the code only through its truthiness and through
  \<^verbatim>\<open>JSON.parse\<close>: it is either a text that \<^verbatim>\<open>JSON.parse\<close> rejects
  (\<open>NotJson\<close>, the empty string among them) or the text of a JSON value.
\<close>

datatype jtext = NotJson string | Json json

datatype error = SecurityError | QuotaExceededError | SyntaxError | TypeError | RangeError

datatype 'a outcome = Returned 'a | Raised error

definition JSON_parse :: "jtext \<Rightarrow> error + json" where
  "JSON_parse t = (case t of NotJson s \<Rightarrow> Inl SyntaxError | Json v \<Rightarrow> Inr v)"

definition JSON_stringify :: "json \<Rightarrow> jtext" where
  "JSON_stringify v = Json v"

text \<open>Truthiness of a string (\<^verbatim>\<open>!cacheData\<close>) and of a JSON value (\<^verbatim>\<open>x || y\<close>).\<close>

definition truthy_text :: "jtext \<Rightarrow> bool" where
  "truthy_text t = (case t of NotJson s \<Rightarrow> s \<noteq> [] | Json v \<Rightarrow> True)"

fun truthy :: "json \<Rightarrow> bool" where
  "truthy JNull = False"
| "truthy (JBool b) = b"
| "truthy (JNum n) = (n \<noteq> 0)"
| "truthy (JStr s) = (s \<noteq> [])"
| "truthy (JArr xs) = True"
| "truthy (JObj fs) = True"

text \<open>
  Property access \<^verbatim>\<open>v.name\<close> for the names the code reads
  (\<^verbatim>\<open>lastUpdated\<close>, \<^verbatim>\<open>messages\<close>, \<^verbatim>\<open>id\<close>): a TypeError on
  \<^verbatim>\<open>null\<close>, \<open>None\<close> for \<^verbatim>\<open>undefined\<close>.
\<close>

fun getProp :: "json \<Rightarrow> string \<Rightarrow> error + json option" where
  "getProp JNull name = Inl TypeError"
| "getProp (JObj fs) name = Inr (map_of fs name)"
| "getProp v name = Inr None"

text \<open>
  The built-ins of the JavaScript platform that the code calls and that are not
  part of the repository are parameters:
  \<^item> \<open>toISOString\<close>: \<^verbatim>\<open>Date.prototype.toISOString\<close> of a valid Date, given by its
    time value;
  \<^item> \<open>Date_parse\<close>: the time value of \<^verbatim>\<open>new Date(v)\<close> for a JSON string, array
    or object (\<open>None\<close> is NaN, the Invalid Date);
  \<^item> \<open>ToNumber\<close>: the number a JSON string, array or object converts to in
    arithmetic (\<open>None\<close> is NaN).
\<close>

record platform =
  toISOString :: "int \<Rightarrow> string"
  Date_parse :: "json \<Rightarrow> int option"
  ToNumber :: "json \<Rightarrow> int option"

text \<open>\<^verbatim>\<open>new Date(v).getTime()\<close> where \<open>v\<close> is a property read from a JSON value.\<close>

definition newDate_getTime :: "platform \<Rightarrow> json option \<Rightarrow> int option" where
  "newDate_getTime P v =
     (case v of
        None \<Rightarrow> None
      | Some JNull \<Rightarrow> Some 0
      | Some (JBool b) \<Rightarrow> Some (if b then 1 else 0)
      | Some (JNum n) \<Rightarrow> (if \<bar>n\<bar> \<le> 8640000000000000 then Some n else None)
      | Some w \<Rightarrow> Date_parse P w)"

text \<open>The numeric value of the right operand of \<^verbatim>\<open>Date.now() - x\<close>.\<close>

definition js_ToNumber :: "platform \<Rightarrow> json \<Rightarrow> int option" where
  "js_ToNumber P v =
     (case v of
        JNull \<Rightarrow> Some 0
      | JBool b \<Rightarrow> Some (if b then 1 else 0)
      | JNum n \<Rightarrow> Some n
      | w \<Rightarrow> ToNumber P w)"

text \<open>The property name of an array index: its decimal digits.\<close>

fun indexKey :: "nat \<Rightarrow> string" where
  "indexKey i =
     (if i div 10 = 0 then [''0123456789'' ! i]
      else indexKey (i div 10) @ [''0123456789'' ! (i mod 10)])"

declare indexKey.simps [simp del]

text \<open>The own enumerable properties that \<^verbatim>\<open>{...v}\<close> copies.\<close>

fun ownProps :: "json \<Rightarrow> (string \<times> json) list" where
  "ownProps (JObj fs) = fs"
| "ownProps (JArr xs) = zip (map indexKey [0..<length xs]) xs"
| "ownProps (JStr s) = zip (map indexKey [0..<length s]) (map (\<lambda>c. JStr [c]) s)"
| "ownProps v = []"

text \<open>An object literal: later properties overwrite earlier ones of the same name.\<close>

definition objectLiteral :: "(string \<times> json) list \<Rightarrow> json" where
  "objectLiteral ps = JObj (foldl (\<lambda>obj (k, v). AList.update k v obj) [] ps)"

section \<open>localStorage\<close>

text \<open>
  The storage medium holds the entries and may fail: a medium whose quota is
  exhausted rejects every write, an unavailable medium (storage disabled by the
  browser) raises on every access.
\<close>

datatype medium = Working | QuotaExceeded | Unavailable

record localStorage =
  entries :: "(string \<times> jtext) list"
  medium :: medium

definition getItem :: "localStorage \<Rightarrow> string \<Rightarrow> error + jtext option" where
  "getItem st key =
     (if medium st = Unavailable then Inl SecurityError
      else Inr (map_of (entries st) key))"

definition setItem :: "string \<Rightarrow> jtext \<Rightarrow> localStorage \<Rightarrow> error + localStorage" where
  "setItem key val st =
     (case medium st of
        Unavailable \<Rightarrow> Inl SecurityError
      | QuotaExceeded \<Rightarrow> Inl QuotaExceededError
      | Working \<Rightarrow> Inr (st\<lparr>entries := AList.update key val (entries st)\<rparr>))"

definition removeItem :: "string \<Rightarrow> localStorage \<Rightarrow> error + localStorage" where
  "removeItem key st =
     (if medium st = Unavailable then Inl SecurityError
      else Inr (st\<lparr>entries := AList.delete key (entries st)\<rparr>))"

definition Object_keys :: "localStorage \<Rightarrow> error + string list" where
  "Object_keys st =
     (if medium st = Unavailable then Inl SecurityError
      else Inr (map fst (entries st)))"

section \<open>ChatMessageCacheManager\<close>

text \<open>
  Interface \<^verbatim>\<open>CachedMessage\<close>. The fields of the three message records carry a
  prefix (\<open>reply_\<close>, \<open>cached_\<close>, \<open>msg_\<close>) to keep them apart. The interface
  does not declare \<^verbatim>\<open>mentions\<close>, but the panel stores \<^verbatim>\<open>{...msg, timestamp}\<close>,
  so a stored message carries the \<^verbatim>\<open>mentions\<close> its chat message had.
\<close>

datatype message_type = Text | System | EmojiReaction | Media

record replyToMessage =
  reply_id :: string
  reply_senderAlias :: string
  reply_content :: string
  reply_timestamp :: string

record CachedMessage =
  cached_id :: string
  cached_senderAlias :: string
  cached_senderAvatarIndex :: int
  cached_content :: string
  cached_timestamp :: string
  cached_type :: message_type
  cached_mentions :: "string list option"
  cached_attachment :: "json option"
  cached_replyTo :: "string option"
  cached_replyToMessage :: "replyToMessage option"

text \<open>What \<^verbatim>\<open>JSON.stringify\<close> writes for a message: absent optional fields are left out.\<close>

definition json_of_type :: "message_type \<Rightarrow> json" where
  "json_of_type t =
     (case t of Text \<Rightarrow> JStr ''text'' | System \<Rightarrow> JStr ''system''
      | EmojiReaction \<Rightarrow> JStr ''emoji-reaction'' | Media \<Rightarrow> JStr ''media'')"

definition json_of_replyToMessage :: "replyToMessage \<Rightarrow> json" where
  "json_of_replyToMessage r =
     JObj [(''id'', JStr (reply_id r)), (''senderAlias'', JStr (reply_senderAlias r)),
           (''content'', JStr (reply_content r)), (''timestamp'', JStr (reply_timestamp r))]"

definition optional :: "string \<Rightarrow> ('a \<Rightarrow> json) \<Rightarrow> 'a option \<Rightarrow> (string \<times> json) list" where
  "optional name f v = (case v of None \<Rightarrow> [] | Some x \<Rightarrow> [(name, f x)])"

definition json_of_CachedMessage :: "CachedMessage \<Rightarrow> json" where
  "json_of_CachedMessage m =
     JObj ([(''id'', JStr (cached_id m)),
            (''senderAlias'', JStr (cached_senderAlias m)),
            (''senderAvatarIndex'', JNum (cached_senderAvatarIndex m)),
            (''content'', JStr (cached_content m)),
            (''timestamp'', JStr (cached_timestamp m)),
            (''type'', json_of_type (cached_type m))]
           @ optional ''mentions'' (\<lambda>ms. JArr (map JStr ms)) (cached_mentions m)
           @ optional ''attachment'' (\<lambda>a. a) (cached_attachment m)
           @ optional ''replyTo'' JStr (cached_replyTo m)
           @ optional ''replyToMessage'' json_of_replyToMessage (cached_replyToMessage m))"

definition CACHE_KEY_PREFIX :: string where
  "CACHE_KEY_PREFIX = ''chat_messages_''"

definition CACHE_EXPIRY :: int where
  "CACHE_EXPIRY = 24 * 60 * 60 * 1000"

definition getCacheKey :: "string \<Rightarrow> string" where
  "getCacheKey sessionId = CACHE_KEY_PREFIX @ sessionId"

text \<open>
  Every operation takes the clock reading \<open>now\<close> (\<^verbatim>\<open>Date.now()\<close>) and the storage,
  and returns the storage it leaves. An operation whose body is one
  \<^verbatim>\<open>try\<close>/\<^verbatim>\<open>catch\<close> returns its value; the others return an \<open>outcome\<close>.
\<close>

definition saveMessages :: "platform \<Rightarrow> int \<Rightarrow> string \<Rightarrow> json \<Rightarrow> localStorage \<Rightarrow> localStorage" where
  "saveMessages P now sessionId messages st =
     (let cache = JObj [(''sessionId'', JStr sessionId),
                        (''messages'', messages),
                        (''lastUpdated'', JStr (toISOString P now))]
      in case setItem (getCacheKey sessionId) (JSON_stringify cache) st of
           Inl e \<Rightarrow> st
         | Inr st' \<Rightarrow> st')"

definition clearMessages :: "string \<Rightarrow> localStorage \<Rightarrow> unit outcome \<times> localStorage" where
  "clearMessages sessionId st =
     (case removeItem (getCacheKey sessionId) st of
        Inl e \<Rightarrow> (Raised e, st)
      | Inr st' \<Rightarrow> (Returned (), st'))"

text \<open>\<^verbatim>\<open>cacheAge > this.CACHE_EXPIRY\<close>; a comparison with NaN is false.\<close>

definition expired :: "platform \<Rightarrow> int \<Rightarrow> json option \<Rightarrow> bool" where
  "expired P now lastUpdated =
     (case newDate_getTime P lastUpdated of
        None \<Rightarrow> False
      | Some t \<Rightarrow> now - t > CACHE_EXPIRY)"

definition loadMessages :: "platform \<Rightarrow> int \<Rightarrow> string \<Rightarrow> localStorage \<Rightarrow> json \<times> localStorage" where
  "loadMessages P now sessionId st =
     (case getItem st (getCacheKey sessionId) of
        Inl e \<Rightarrow> (JArr [], st)
      | Inr None \<Rightarrow> (JArr [], st)
      | Inr (Some cacheData) \<Rightarrow>
          if \<not> truthy_text cacheData then (JArr [], st)
          else
            (case JSON_parse cacheData of
               Inl e \<Rightarrow> (JArr [], st)
             | Inr cache \<Rightarrow>
                 (case getProp cache ''lastUpdated'' of
                    Inl e \<Rightarrow> (JArr [], st)
                  | Inr lastUpdated \<Rightarrow>
                      if expired P now lastUpdated
                      then (JArr [], snd (clearMessages sessionId st))
                      else
                        (case getProp cache ''messages'' of
                           Inl e \<Rightarrow> (JArr [], st)
                         | Inr None \<Rightarrow> (JArr [], st)
                         | Inr (Some messages) \<Rightarrow>
                             (if truthy messages then messages else JArr [], st)))))"

text \<open>
  \<^verbatim>\<open>existingMessages.find(m => m.id === message.id)\<close>: only an array has
  \<^verbatim>\<open>find\<close>; reading \<^verbatim>\<open>id\<close> of a \<^verbatim>\<open>null\<close> element raises.
\<close>

fun find_id :: "string \<Rightarrow> json list \<Rightarrow> error + json option" where
  "find_id i [] = Inr None"
| "find_id i (m # ms) =
     (case getProp m ''id'' of
        Inl e \<Rightarrow> Inl e
      | Inr v \<Rightarrow> if v = Some (JStr i) then Inr (Some m) else find_id i ms)"

definition Array_find_id :: "string \<Rightarrow> json \<Rightarrow> error + json option" where
  "Array_find_id i v = (case v of JArr xs \<Rightarrow> find_id i xs | _ \<Rightarrow> Inl TypeError)"

text \<open>The elements that \<^verbatim>\<open>[...v]\<close> iterates over.\<close>

definition spreadArray :: "json \<Rightarrow> error + json list" where
  "spreadArray v =
     (case v of
        JArr xs \<Rightarrow> Inr xs
      | JStr s \<Rightarrow> Inr (map (\<lambda>c. JStr [c]) s)
      | _ \<Rightarrow> Inl TypeError)"

definition addMessage ::
  "platform \<Rightarrow> int \<Rightarrow> string \<Rightarrow> CachedMessage \<Rightarrow> localStorage \<Rightarrow> unit outcome \<times> localStorage" where
  "addMessage P now sessionId message st =
     (let (existingMessages, st1) = loadMessages P now sessionId st in
      case Array_find_id (cached_id message) existingMessages of
        Inl e \<Rightarrow> (Raised e, st1)
      | Inr exists \<Rightarrow>
          if \<not> (case exists of None \<Rightarrow> False | Some m \<Rightarrow> truthy m)
          then
            (case spreadArray existingMessages of
               Inl e \<Rightarrow> (Raised e, st1)
             | Inr xs \<Rightarrow>
                 (Returned (),
                  saveMessages P now sessionId (JArr (xs @ [json_of_CachedMessage message])) st1))
          else (Returned (), st1))"

text \<open>The argument of \<^verbatim>\<open>updateParticipantState\<close>: each flag is present or absent.\<close>

record participantFlags =
  isMuted :: "bool option"
  isKicked :: "bool option"

definition stateKey :: "string \<Rightarrow> string \<Rightarrow> string" where
  "stateKey sessionId participantId = ''participant_state_'' @ sessionId @ ''_'' @ participantId"

definition updateParticipantState ::
  "int \<Rightarrow> string \<Rightarrow> string \<Rightarrow> participantFlags \<Rightarrow> localStorage \<Rightarrow> localStorage" where
  "updateParticipantState now sessionId participantId state st =
     (case getItem st (stateKey sessionId participantId) of
        Inl e \<Rightarrow> st
      | Inr item \<Rightarrow>
          (case JSON_parse (case item of
                              None \<Rightarrow> Json (JObj [])
                            | Some t \<Rightarrow> if truthy_text t then t else Json (JObj [])) of
             Inl e \<Rightarrow> st
           | Inr currentState \<Rightarrow>
               (let updatedState =
                      objectLiteral (ownProps currentState
                        @ optional ''isMuted'' JBool (isMuted state)
                        @ optional ''isKicked'' JBool (isKicked state)
                        @ [(''lastUpdated'', JNum now)])
                in case setItem (stateKey sessionId participantId) (JSON_stringify updatedState) st of
                     Inl e \<Rightarrow> st
                   | Inr st' \<Rightarrow> st')))"

text \<open>\<^verbatim>\<open>Date.now() - (parsed.lastUpdated || 0)\<close>; \<open>None\<close> is NaN.\<close>

definition stateAge :: "platform \<Rightarrow> int \<Rightarrow> json option \<Rightarrow> int option" where
  "stateAge P now lastUpdated =
     map_option (\<lambda>n. now - n)
       (js_ToNumber P (case lastUpdated of
                         None \<Rightarrow> JNum 0
                       | Some v \<Rightarrow> if truthy v then v else JNum 0))"

definition getParticipantState ::
  "platform \<Rightarrow> int \<Rightarrow> string \<Rightarrow> string \<Rightarrow> localStorage \<Rightarrow> json \<times> localStorage" where
  "getParticipantState P now sessionId participantId st =
     (case getItem st (stateKey sessionId participantId) of
        Inl e \<Rightarrow> (JObj [], st)
      | Inr None \<Rightarrow> (JObj [], st)
      | Inr (Some state) \<Rightarrow>
          if \<not> truthy_text state then (JObj [], st)
          else
            (case JSON_parse state of
               Inl e \<Rightarrow> (JObj [], st)
             | Inr parsed \<Rightarrow>
                 (case getProp parsed ''lastUpdated'' of
                    Inl e \<Rightarrow> (JObj [], st)
                  | Inr lastUpdated \<Rightarrow>
                      (case stateAge P now lastUpdated of
                         None \<Rightarrow> (parsed, st)
                       | Some age \<Rightarrow>
                           if age > 60 * 60 * 1000
                           then (case removeItem (stateKey sessionId participantId) st of
                                   Inl e \<Rightarrow> (JObj [], st)
                                 | Inr st' \<Rightarrow> (JObj [], st'))
                           else (parsed, st)))))"

fun forEach_removeItem :: "string list \<Rightarrow> localStorage \<Rightarrow> unit outcome \<times> localStorage" where
  "forEach_removeItem [] st = (Returned (), st)"
| "forEach_removeItem (key # keys) st =
     (case removeItem key st of
        Inl e \<Rightarrow> (Raised e, st)
      | Inr st' \<Rightarrow> forEach_removeItem keys st')"

definition clearAllCache :: "localStorage \<Rightarrow> unit outcome \<times> localStorage" where
  "clearAllCache st =
     (case Object_keys st of
        Inl e \<Rightarrow> (Raised e, st)
      | Inr keys \<Rightarrow> forEach_removeItem (filter (prefix CACHE_KEY_PREFIX) keys) st)"

text \<open>
  The shapes the interfaces \<^verbatim>\<open>CachedMessage\<close> and \<^verbatim>\<open>MessageCache\<close> declare,
  as predicates on JSON values. The code never checks them.
\<close>

definition is_string :: "json option \<Rightarrow> bool" where
  "is_string v = (case v of Some (JStr s) \<Rightarrow> True | _ \<Rightarrow> False)"

definition is_number :: "json option \<Rightarrow> bool" where
  "is_number v = (case v of Some (JNum n) \<Rightarrow> True | _ \<Rightarrow> False)"

definition is_replyToMessage :: "json \<Rightarrow> bool" where
  "is_replyToMessage v =
     (case v of
        JObj fs \<Rightarrow> is_string (map_of fs ''id'') \<and> is_string (map_of fs ''senderAlias'')
                 \<and> is_string (map_of fs ''content'') \<and> is_string (map_of fs ''timestamp'')
      | _ \<Rightarrow> False)"

definition is_CachedMessage :: "json \<Rightarrow> bool" where
  "is_CachedMessage v =
     (case v of
        JObj fs \<Rightarrow>
          is_string (map_of fs ''id'') \<and> is_string (map_of fs ''senderAlias'')
          \<and> is_number (map_of fs ''senderAvatarIndex'')
          \<and> is_string (map_of fs ''content'') \<and> is_string (map_of fs ''timestamp'')
          \<and> map_of fs ''type'' \<in> set (map (\<lambda>s. Some (JStr s))
                                        [''text'', ''system'', ''emoji-reaction'', ''media''])
          \<and> (map_of fs ''replyTo'' = None \<or> is_string (map_of fs ''replyTo''))
          \<and> (case map_of fs ''replyToMessage'' of None \<Rightarrow> True | Some r \<Rightarrow> is_replyToMessage r)
      | _ \<Rightarrow> False)"

definition is_MessageCache :: "json \<Rightarrow> bool" where
  "is_MessageCache v =
     (case v of
        JObj fs \<Rightarrow>
          is_string (map_of fs ''sessionId'')
          \<and> (case map_of fs ''messages'' of
                Some (JArr ms) \<Rightarrow> list_all is_CachedMessage ms
              | _ \<Rightarrow> False)
          \<and> is_string (map_of fs ''lastUpdated'')
      | _ \<Rightarrow> False)"

section \<open>ResizableChatPanel: the enrichment pass\<close>

text \<open>
  A Date object is represented by its time value in milliseconds since the
  epoch; \<open>None\<close> is the time value NaN of the Invalid Date, which
  \<^verbatim>\<open>new Date(s)\<close> gives for a string that is not a date.
\<close>

type_synonym Date = "int option"

text \<open>\<^verbatim>\<open>toISOString()\<close> raises a RangeError on the Invalid Date.\<close>

definition Date_toISOString :: "platform \<Rightarrow> Date \<Rightarrow> error + string" where
  "Date_toISOString P d = (case d of None \<Rightarrow> Inl RangeError | Some t \<Rightarrow> Inr (toISOString P t))"

text \<open>Interface \<^verbatim>\<open>ChatMessage\<close>.\<close>

record ChatMessage =
  msg_id :: string
  msg_senderAlias :: string
  msg_senderAvatarIndex :: int
  msg_content :: string
  msg_timestamp :: Date
  msg_type :: message_type
  msg_mentions :: "string list option"
  msg_attachment :: "json option"
  msg_replyTo :: "string option"
  msg_replyToMessage :: "replyToMessage option"

text \<open>
  The pass takes the result of \<^verbatim>\<open>loadMessages\<close> at its declared type, a list of
  \<^verbatim>\<open>CachedMessage\<close>, and turns each one into a \<^verbatim>\<open>ChatMessage\<close> with
  \<^verbatim>\<open>{ ...cached, timestamp: new Date(cached.timestamp) }\<close>.
\<close>

definition toChatMessage :: "platform \<Rightarrow> CachedMessage \<Rightarrow> ChatMessage" where
  "toChatMessage P cached =
     \<lparr> msg_id = cached_id cached,
       msg_senderAlias = cached_senderAlias cached,
       msg_senderAvatarIndex = cached_senderAvatarIndex cached,
       msg_content = cached_content cached,
       msg_timestamp = newDate_getTime P (Some (JStr (cached_timestamp cached))),
       msg_type = cached_type cached,
       msg_mentions = cached_mentions cached,
       msg_attachment = cached_attachment cached,
       msg_replyTo = cached_replyTo cached,
       msg_replyToMessage = cached_replyToMessage cached \<rparr>"

text \<open>
  The body of \<^verbatim>\<open>cachedMessages.forEach\<close>: a cached message is pushed unless
  \<^verbatim>\<open>allMessages\<close> already holds a message of its id.
\<close>

definition pushCached :: "platform \<Rightarrow> ChatMessage list \<Rightarrow> CachedMessage \<Rightarrow> ChatMessage list" where
  "pushCached P allMessages cached =
     (if find (\<lambda>m. msg_id m = cached_id cached) allMessages = None
      then allMessages @ [toChatMessage P cached]
      else allMessages)"

definition allMessages :: "platform \<Rightarrow> ChatMessage list \<Rightarrow> CachedMessage list \<Rightarrow> ChatMessage list" where
  "allMessages P messages cachedMessages = foldl (pushCached P) messages cachedMessages"

text \<open>
  \<^verbatim>\<open>allMessages.forEach(msg => messageMap.set(msg.id, msg))\<close>: a later message
  replaces an earlier one of the same id.
\<close>

definition messageMap :: "ChatMessage list \<Rightarrow> (string \<rightharpoonup> ChatMessage)" where
  "messageMap msgs = foldl (\<lambda>mp msg. mp(msg_id msg \<mapsto> msg)) Map.empty msgs"

text \<open>
  The callback of \<^verbatim>\<open>allMessages.map\<close>; the empty string is falsy, and
  \<^verbatim>\<open>replyToMsg.timestamp.toISOString()\<close> may raise.
\<close>

definition enhance :: "platform \<Rightarrow> (string \<rightharpoonup> ChatMessage) \<Rightarrow> ChatMessage \<Rightarrow> error + ChatMessage" where
  "enhance P mp msg =
     (case msg_replyTo msg of
        None \<Rightarrow> Inr msg
      | Some r \<Rightarrow>
          if r \<noteq> [] \<and> mp r \<noteq> None
          then (case mp r of
                  None \<Rightarrow> Inr msg
                | Some replyToMsg \<Rightarrow>
                    (case Date_toISOString P (msg_timestamp replyToMsg) of
                       Inl e \<Rightarrow> Inl e
                     | Inr isoString \<Rightarrow>
                         Inr (msg\<lparr>msg_replyToMessage :=
                                Some \<lparr> reply_id = msg_id replyToMsg,
                                       reply_senderAlias = msg_senderAlias replyToMsg,
                                       reply_content = msg_content replyToMsg,
                                       reply_timestamp = isoString \<rparr>\<rparr>)))
          else Inr msg)"

text \<open>\<^verbatim>\<open>Array.prototype.map\<close> with a callback that may raise: the first exception ends it.\<close>

fun Array_map :: "('a \<Rightarrow> error + 'b) \<Rightarrow> 'a list \<Rightarrow> error + 'b list" where
  "Array_map f [] = Inr []"
| "Array_map f (x # xs) =
     (case f x of
        Inl e \<Rightarrow> Inl e
      | Inr y \<Rightarrow> (case Array_map f xs of Inl e \<Rightarrow> Inl e | Inr ys \<Rightarrow> Inr (y # ys)))"

text \<open>
  The comparator \<^verbatim>\<open>(a, b) => a.timestamp.getTime() - b.timestamp.getTime()\<close>:
  NaN (\<open>None\<close>) when one of the Dates is invalid, else a number with the sign of
  the difference of the time values.
\<close>

definition compareTimestamps :: "ChatMessage \<Rightarrow> ChatMessage \<Rightarrow> int option" where
  "compareTimestamps a b =
     (case (msg_timestamp a, msg_timestamp b) of
        (Some x, Some y) \<Rightarrow> Some (x - y)
      | _ \<Rightarrow> None)"

text \<open>
  \<^verbatim>\<open>Array.prototype.sort\<close> calls the comparator through SortCompare, which
  reads NaN as \<open>0\<close>. The sort is stable. It is modelled by a stable insertion
  sort that consults only SortCompare; when the comparator is not consistent (a
  NaN among the time values) ECMAScript leaves the order to the engine, and the
  insertion sort is one such order.
\<close>

definition SortCompare :: "('a \<Rightarrow> 'a \<Rightarrow> int option) \<Rightarrow> 'a \<Rightarrow> 'a \<Rightarrow> int" where
  "SortCompare comparefn x y = (case comparefn x y of None \<Rightarrow> 0 | Some v \<Rightarrow> v)"

fun insertSorted :: "('a \<Rightarrow> 'a \<Rightarrow> int option) \<Rightarrow> 'a \<Rightarrow> 'a list \<Rightarrow> 'a list" where
  "insertSorted comparefn x [] = [x]"
| "insertSorted comparefn x (y # ys) =
     (if SortCompare comparefn x y \<le> 0 then x # y # ys
      else y # insertSorted comparefn x ys)"

definition Array_sort :: "('a \<Rightarrow> 'a \<Rightarrow> int option) \<Rightarrow> 'a list \<Rightarrow> 'a list" where
  "Array_sort comparefn xs = foldr (insertSorted comparefn) xs []"

text \<open>
  The value the effect passes to \<^verbatim>\<open>setEnhancedMessages\<close>, or the exception that
  ends the effect before it does.
\<close>

definition enhancedMessages ::
  "platform \<Rightarrow> ChatMessage list \<Rightarrow> CachedMessage list \<Rightarrow> error + ChatMessage list" where
  "enhancedMessages P messages cachedMessages =
     (let allMsgs = allMessages P messages cachedMessages;
          mp = messageMap allMsgs
      in case Array_map (enhance P mp) allMsgs of
           Inl e \<Rightarrow> Inl e
         | Inr enhanced \<Rightarrow> Inr (Array_sort compareTimestamps enhanced))"

section \<open>Sample values\<close>

text \<open>
  A finite part of the platform, for evaluating the operations on concrete
  inputs: the ISO-8601 renderings of a few time values, read in both directions.
\<close>

definition isoTable :: "(int \<times> string) list" where
  "isoTable =
     [(0, ''1970-01-01T00:00:00.000Z''),
      (1000, ''1970-01-01T00:00:01.000Z''),
      (2000, ''1970-01-01T00:00:02.000Z''),
      (3000, ''1970-01-01T00:00:03.000Z''),
      (3600000, ''1970-01-01T01:00:00.000Z''),
      (82800000, ''1970-01-01T23:00:00.000Z''),
      (86400000, ''1970-01-02T00:00:00.000Z''),
      (86400001, ''1970-01-02T00:00:00.001Z''),
      (90000000, ''1970-01-02T01:00:00.000Z'')]"

definition samplePlatform :: platform where
  "samplePlatform =
     \<lparr> toISOString = (\<lambda>t. case map_of isoTable t of Some s \<Rightarrow> s | None \<Rightarrow> []),
       Date_parse = (\<lambda>v. case v of
                             JStr s \<Rightarrow> map_of (map (\<lambda>(t, s). (s, t)) isoTable) s
                           | _ \<Rightarrow> None),
       ToNumber = (\<lambda>v. None) \<rparr>"

definition sampleMessage :: "string \<Rightarrow> int \<Rightarrow> string \<Rightarrow> string option \<Rightarrow> ChatMessage" where
  "sampleMessage i t c r =
     \<lparr> msg_id = i, msg_senderAlias = ''alice'', msg_senderAvatarIndex = 1, msg_content = c,
       msg_timestamp = Some t, msg_type = Text, msg_mentions = None, msg_attachment = None,
       msg_replyTo = r, msg_replyToMessage = None \<rparr>"

definition sampleCached :: "string \<Rightarrow> string \<Rightarrow> string \<Rightarrow> string option \<Rightarrow> CachedMessage" where
  "sampleCached i t c r =
     \<lparr> cached_id = i, cached_senderAlias = ''bob'', cached_senderAvatarIndex = 2,
       cached_content = c, cached_timestamp = t, cached_type = Text, cached_mentions = None,
       cached_attachment = None, cached_replyTo = r, cached_replyToMessage = None \<rparr>"

text \<open>A reply to \<open>a1\<close> that already carries a snapshot of its target.\<close>

definition sampleReply :: ChatMessage where
  "sampleReply =
     (sampleMessage ''b1'' 2000 ''hello back'' (Some ''a1''))
       \<lparr>msg_replyToMessage :=
          Some \<lparr> reply_id = ''a1'', reply_senderAlias = ''bob'', reply_content = ''hi'',
                 reply_timestamp = ''1970-01-01T00:00:01.000Z'' \<rparr>\<rparr>"

text \<open>A store that holds one record for session \<open>s1\<close>, last updated at the epoch.\<close>

definition sampleStore :: "json \<Rightarrow> localStorage" where
  "sampleStore messages =
     \<lparr> entries = [(''chat_messages_s1'',
                    Json (JObj [(''sessionId'', JStr ''s1''),
                                (''messages'', messages),
                                (''lastUpdated'', JStr ''1970-01-01T00:00:00.000Z'')]))],
       medium = Working \<rparr>"

section \<open>Properties of the enrichment pass\<close>

lemma enhance_only_snapshot:
  "enhance P mp m = Inr e \<Longrightarrow> e = m\<lparr>msg_replyToMessage := msg_replyToMessage e\<rparr>"
  by (auto simp: enhance_def split: option.splits if_splits sum.splits)

lemma enhance_fields:
  assumes "enhance P mp m = Inr e"
  shows "msg_id e = msg_id m" and "msg_senderAlias e = msg_senderAlias m"
    and "msg_content e = msg_content m" and "msg_timestamp e = msg_timestamp m"
    and "msg_replyTo e = msg_replyTo m"
proof -
  from enhance_only_snapshot [OF assms] obtain x where e: "e = m\<lparr>msg_replyToMessage := x\<rparr>"
    by blast
  show "msg_id e = msg_id m" and "msg_senderAlias e = msg_senderAlias m"
    and "msg_content e = msg_content m" and "msg_timestamp e = msg_timestamp m"
    and "msg_replyTo e = msg_replyTo m"
    by (simp_all add: e)
qed

lemma enhance_resolved:
  "msg_replyTo m = Some r \<Longrightarrow> mp r = Some t \<Longrightarrow> r \<noteq> [] \<Longrightarrow>
   enhance P mp m =
     (case Date_toISOString P (msg_timestamp t) of
        Inl e \<Rightarrow> Inl e
      | Inr isoString \<Rightarrow>
          Inr (m\<lparr>msg_replyToMessage :=
                 Some \<lparr> reply_id = msg_id t, reply_senderAlias = msg_senderAlias t,
                        reply_content = msg_content t, reply_timestamp = isoString \<rparr>\<rparr>))"
  by (simp add: enhance_def)

lemma enhance_unresolved:
  "msg_replyTo m = None \<or> msg_replyTo m = Some [] \<or> (\<exists>r. msg_replyTo m = Some r \<and> mp r = None) \<Longrightarrow>
   enhance P mp m = Inr m"
  by (auto simp: enhance_def split: option.splits)

lemma Array_map_Inr:
  "(Array_map f xs = Inr ys) = list_all2 (\<lambda>x y. f x = Inr y) xs ys"
proof
  show "Array_map f xs = Inr ys \<Longrightarrow> list_all2 (\<lambda>x y. f x = Inr y) xs ys"
    by (induction xs arbitrary: ys) (auto split: sum.splits)
  show "list_all2 (\<lambda>x y. f x = Inr y) xs ys \<Longrightarrow> Array_map f xs = Inr ys"
    by (induction rule: list_all2_induct) auto
qed

lemma list_all2_right_mem:
  "list_all2 R xs ys \<Longrightarrow> y \<in> set ys \<Longrightarrow> \<exists>x \<in> set xs. R x y"
  by (induction rule: list_all2_induct) auto


lemma list_all2_map_eq:
  "list_all2 R xs ys \<Longrightarrow> (\<And>x y. R x y \<Longrightarrow> g y = f x) \<Longrightarrow> map g ys = map f xs"
  by (induction rule: list_all2_induct) auto

lemma set_insertSorted [simp]: "set (insertSorted c x ys) = insert x (set ys)"
  by (induction ys) auto

lemma set_foldr_insertSorted [simp]: "set (foldr (insertSorted c) xs []) = set xs"
  by (induction xs) auto

lemma set_Array_sort [simp]: "set (Array_sort c xs) = set xs"
  by (simp add: Array_sort_def)

lemma distinct_map_insertSorted:
  "distinct (map f (insertSorted c x ys)) = (f x \<notin> f ` set ys \<and> distinct (map f ys))"
  by (induction ys) auto

lemma distinct_map_Array_sort: "distinct (map f (Array_sort c xs)) = distinct (map f xs)"
  by (induction xs) (auto simp: Array_sort_def distinct_map_insertSorted)

lemma pushCached_cases:
  "(pushCached P acc c = acc \<and> cached_id c \<in> msg_id ` set acc)
   \<or> (pushCached P acc c = acc @ [toChatMessage P c] \<and> cached_id c \<notin> msg_id ` set acc)"
proof (cases "find (\<lambda>m. msg_id m = cached_id c) acc")
  case None
  then have "cached_id c \<notin> msg_id ` set acc"
    by (auto simp: find_None_iff)
  with None show ?thesis by (simp add: pushCached_def)
next
  case (Some y)
  then have "cached_id c \<in> msg_id ` set acc"
    by (metis (mono_tags, lifting) find_None_iff image_iff option.distinct(1))
  with Some show ?thesis by (simp add: pushCached_def)
qed

lemma toChatMessage_id [simp]: "msg_id (toChatMessage P c) = cached_id c"
  by (simp add: toChatMessage_def)

lemma foldl_pushCached_ids:
  "msg_id ` set (foldl (pushCached P) acc cs) = msg_id ` set acc \<union> cached_id ` set cs"
proof (induction cs arbitrary: acc)
  case Nil
  show ?case by simp
next
  case (Cons c cs)
  have "msg_id ` set (pushCached P acc c) = insert (cached_id c) (msg_id ` set acc)"
    using pushCached_cases [of P acc c] by auto
  with Cons show ?case by auto
qed

lemma foldl_pushCached_distinct:
  "distinct (map msg_id acc) \<Longrightarrow> distinct (map msg_id (foldl (pushCached P) acc cs))"
proof (induction cs arbitrary: acc)
  case Nil
  then show ?case by simp
next
  case (Cons c cs)
  have "distinct (map msg_id (pushCached P acc c))"
    using Cons.prems pushCached_cases [of P acc c] by auto
  with Cons.IH show ?case by simp
qed

lemma foldl_pushCached_prefix:
  "\<exists>ys. foldl (pushCached P) acc cs = acc @ ys"
proof (induction cs arbitrary: acc)
  case Nil
  show ?case by simp
next
  case (Cons c cs)
  obtain ys where ys: "foldl (pushCached P) (pushCached P acc c) cs = pushCached P acc c @ ys"
    using Cons.IH by blast
  from pushCached_cases [of P acc c] show ?case
  proof
    assume "pushCached P acc c = acc \<and> cached_id c \<in> msg_id ` set acc"
    with ys show ?thesis by simp
  next
    assume "pushCached P acc c = acc @ [toChatMessage P c] \<and> cached_id c \<notin> msg_id ` set acc"
    with ys show ?thesis by simp
  qed
qed

lemma messageMap_snoc: "messageMap (xs @ [x]) = (messageMap xs)(msg_id x \<mapsto> x)"
  by (simp add: messageMap_def)

lemma messageMap_Nil [simp]: "messageMap [] = Map.empty"
  by (simp add: messageMap_def)

lemma messageMap_dom: "(messageMap xs r \<noteq> None) = (r \<in> msg_id ` set xs)"
  by (induction xs rule: rev_induct) (auto simp: messageMap_snoc)

lemma messageMap_Some_mem: "messageMap xs r = Some t \<Longrightarrow> t \<in> set xs \<and> msg_id t = r"
  by (induction xs rule: rev_induct) (auto simp: messageMap_snoc split: if_splits)


lemma enhancedMessages_Inr:
  "(enhancedMessages P messages cachedMessages = Inr out)
   = (\<exists>ys. list_all2 (\<lambda>m e. enhance P (messageMap (allMessages P messages cachedMessages)) m = Inr e)
              (allMessages P messages cachedMessages) ys
          \<and> out = Array_sort compareTimestamps ys)"
  by (auto simp: enhancedMessages_def Let_def Array_map_Inr [symmetric] split: sum.splits)



lemma insertSorted_not_Nil [simp]: "insertSorted c x ys \<noteq> []"
  by (cases ys) auto







lemma toChatMessage_timestamp [simp]:
  "msg_timestamp (toChatMessage P c) = newDate_getTime P (Some (JStr (cached_timestamp c)))"
  by (simp add: toChatMessage_def)

lemma foldl_pushCached_valid:
  "\<forall>m \<in> set acc. msg_timestamp m \<noteq> None \<Longrightarrow>
   \<forall>c \<in> set cs. newDate_getTime P (Some (JStr (cached_timestamp c))) \<noteq> None \<Longrightarrow>
   \<forall>m \<in> set (foldl (pushCached P) acc cs). msg_timestamp m \<noteq> None"
proof (induction cs arbitrary: acc)
  case Nil
  then show ?case by simp
next
  case (Cons c cs)
  have "\<forall>m \<in> set (pushCached P acc c). msg_timestamp m \<noteq> None"
    using Cons.prems pushCached_cases [of P acc c] by auto
  moreover have "\<forall>c \<in> set cs. newDate_getTime P (Some (JStr (cached_timestamp c))) \<noteq> None"
    using Cons.prems(2) by simp
  ultimately show ?case using Cons.IH by simp
qed

lemma Array_map_returns:
  "\<forall>x \<in> set xs. \<exists>y. f x = Inr y \<Longrightarrow> \<exists>ys. Array_map f xs = Inr ys"
  by (induction xs) auto

lemma enhance_returns:
  assumes "\<forall>t \<in> set xs. msg_timestamp t \<noteq> None"
  shows "\<exists>e. enhance P (messageMap xs) m = Inr e"
proof (cases "msg_replyTo m")
  case None
  then show ?thesis by (simp add: enhance_unresolved)
next
  case (Some r)
  show ?thesis
  proof (cases "r \<noteq> [] \<and> messageMap xs r \<noteq> None")
    case True
    then obtain t where t: "messageMap xs r = Some t" by auto
    then have "t \<in> set xs" using messageMap_Some_mem by blast
    with assms obtain v where "msg_timestamp t = Some v" by auto
    with enhance_resolved [of m r "messageMap xs" t P] Some t True
    show ?thesis by (simp add: Date_toISOString_def)
  next
    case False
    then have "r = [] \<or> messageMap xs r = None" by auto
    with Some have "enhance P (messageMap xs) m = Inr m" by (intro enhance_unresolved) auto
    then show ?thesis by blast
  qed
qed

lemma insertSorted_valid:
  "msg_timestamp x \<noteq> None \<Longrightarrow> \<forall>y \<in> set ys. msg_timestamp y \<noteq> None \<Longrightarrow>
   insertSorted compareTimestamps x ys = insort_key (\<lambda>m. the (msg_timestamp m)) x ys"
  by (induction ys) (auto simp: SortCompare_def compareTimestamps_def)

lemma Array_sort_valid:
  "\<forall>y \<in> set ys. msg_timestamp y \<noteq> None \<Longrightarrow>
   Array_sort compareTimestamps ys = sort_key (\<lambda>m. the (msg_timestamp m)) ys"
  unfolding Array_sort_def
proof (induction ys)
  case Nil
  show ?case by simp
next
  case (Cons y ys)
  then have tl: "foldr (insertSorted compareTimestamps) ys [] = sort_key (\<lambda>m. the (msg_timestamp m)) ys"
    by simp
  have "insertSorted compareTimestamps y (sort_key (\<lambda>m. the (msg_timestamp m)) ys)
        = insort_key (\<lambda>m. the (msg_timestamp m)) y (sort_key (\<lambda>m. the (msg_timestamp m)) ys)"
    using Cons.prems by (intro insertSorted_valid) auto
  with tl show ?case by simp
qed

lemma enhancedMessages_valid:
  assumes live: "\<forall>m \<in> set messages. msg_timestamp m \<noteq> None"
    and cached: "\<forall>c \<in> set cachedMessages.
                   newDate_getTime P (Some (JStr (cached_timestamp c))) \<noteq> None"
  shows "\<exists>enhanced.
           Array_map (enhance P (messageMap (allMessages P messages cachedMessages)))
             (allMessages P messages cachedMessages) = Inr enhanced
         \<and> (\<forall>m \<in> set enhanced. msg_timestamp m \<noteq> None)
         \<and> enhancedMessages P messages cachedMessages
           = Inr (sort_key (\<lambda>m. the (msg_timestamp m)) enhanced)"
proof -
  let ?all = "allMessages P messages cachedMessages"
  let ?mp = "messageMap ?all"
  have v_all: "\<forall>m \<in> set ?all. msg_timestamp m \<noteq> None"
    unfolding allMessages_def using live cached by (rule foldl_pushCached_valid)
  then have "\<forall>m \<in> set ?all. \<exists>e. enhance P ?mp m = Inr e"
    using enhance_returns by blast
  then obtain ys where ys: "Array_map (enhance P ?mp) ?all = Inr ys"
    using Array_map_returns by blast
  then have l: "list_all2 (\<lambda>m e. enhance P ?mp m = Inr e) ?all ys"
    by (simp add: Array_map_Inr)
  have "map msg_timestamp ys = map msg_timestamp ?all"
    using l by (rule list_all2_map_eq) (rule enhance_fields(4))
  then have "msg_timestamp ` set ys = msg_timestamp ` set ?all" by (metis set_map)
  with v_all have v_ys: "\<forall>m \<in> set ys. msg_timestamp m \<noteq> None" by (metis imageE imageI)
  have "enhancedMessages P messages cachedMessages = Inr (Array_sort compareTimestamps ys)"
    using ys by (simp add: enhancedMessages_def Let_def)
  with v_ys ys show ?thesis by (auto simp: Array_sort_valid)
qed

lemma samplePlatform_dates:
  "newDate_getTime samplePlatform (Some (JStr ''1970-01-01T00:00:00.000Z'')) = Some 0"
  "newDate_getTime samplePlatform (Some (JStr ''1970-01-01T00:00:01.000Z'')) = Some 1000"
  "newDate_getTime samplePlatform (Some (JStr ''1970-01-01T00:00:02.000Z'')) = Some 2000"
  "newDate_getTime samplePlatform (Some (JStr ''1970-01-01T00:00:03.000Z'')) = Some 3000"
  "newDate_getTime samplePlatform (Some (JStr ''not a date'')) = None"
  by (simp_all add: newDate_getTime_def samplePlatform_def isoTable_def)

text \<open>
  C1 (amended). When the live messages have pairwise distinct ids, an output of
  the enrichment pass has exactly one entry per distinct message id of the two
  inputs, and the entry for an id that a live message carries is that live
  message, up to the derived \<^verbatim>\<open>replyToMessage\<close> that the pass attaches.
\<close>

theorem enhancedMessages_dedup:
  assumes "distinct (map msg_id messages)"
    and "enhancedMessages P messages cachedMessages = Inr out"
  shows "distinct (map msg_id out)
       \<and> set (map msg_id out) = msg_id ` set messages \<union> cached_id ` set cachedMessages
       \<and> (\<forall>e \<in> set out. \<forall>m \<in> set messages.
            msg_id e = msg_id m \<longrightarrow> e = m\<lparr>msg_replyToMessage := msg_replyToMessage e\<rparr>)"
proof -
  let ?all = "allMessages P messages cachedMessages"
  let ?mp = "messageMap ?all"
  obtain ys where ys: "list_all2 (\<lambda>m e. enhance P ?mp m = Inr e) ?all ys"
    and out: "out = Array_sort compareTimestamps ys"
    using assms(2) by (auto simp: enhancedMessages_Inr)
  have ids_ys: "map msg_id ys = map msg_id ?all"
    using ys by (rule list_all2_map_eq) (rule enhance_fields(1))
  have d_all: "distinct (map msg_id ?all)"
    unfolding allMessages_def using assms(1) by (rule foldl_pushCached_distinct)
  have 1: "distinct (map msg_id out)"
    using d_all by (simp only: out distinct_map_Array_sort ids_ys)
  have "set (map msg_id out) = set (map msg_id ys)"
    by (simp add: out)
  also have "\<dots> = msg_id ` set ?all" by (simp only: ids_ys set_map)
  also have "\<dots> = msg_id ` set messages \<union> cached_id ` set cachedMessages"
    unfolding allMessages_def by (rule foldl_pushCached_ids)
  finally have 2: "set (map msg_id out) = msg_id ` set messages \<union> cached_id ` set cachedMessages" .
  obtain zs where all_eq: "?all = messages @ zs"
    unfolding allMessages_def using foldl_pushCached_prefix by blast
  have 3: "e = m\<lparr>msg_replyToMessage := msg_replyToMessage e\<rparr>"
    if e: "e \<in> set out" and m: "m \<in> set messages" and eq: "msg_id e = msg_id m" for e m
  proof -
    from e have "e \<in> set ys" by (simp add: out)
    from list_all2_right_mem [OF ys this]
    obtain x where x: "x \<in> set ?all" and ex: "enhance P ?mp x = Inr e" by blast
    have "m \<in> set ?all" using m all_eq by simp
    moreover have "msg_id x = msg_id m" using eq enhance_fields(1) [OF ex] by simp
    ultimately have "x = m"
      using d_all x by (meson distinct_map inj_onD)
    with ex show ?thesis by (simp add: enhance_only_snapshot)
  qed
  from 1 2 3 show ?thesis by blast
qed

theorem enhancedMessages_dedup_witness:
  "\<exists>out. enhancedMessages samplePlatform
         [sampleMessage ''m2'' 2000 ''hello back'' (Some ''m1'')]
         [sampleCached ''m1'' ''1970-01-01T00:00:01.000Z'' ''hi'' None,
          sampleCached ''m2'' ''1970-01-01T00:00:03.000Z'' ''stale'' None] = Inr out
       \<and> distinct (map msg_id out)
       \<and> set (map msg_id out) = {''m1'', ''m2''}"
proof -
  let ?live = "[sampleMessage ''m2'' 2000 ''hello back'' (Some ''m1'')]"
  let ?cached = "[sampleCached ''m1'' ''1970-01-01T00:00:01.000Z'' ''hi'' None,
          sampleCached ''m2'' ''1970-01-01T00:00:03.000Z'' ''stale'' None]"
  have d: "distinct (map msg_id ?live)" by simp
  have "\<forall>m \<in> set ?live. msg_timestamp m \<noteq> None" by (simp add: sampleMessage_def)
  moreover have "\<forall>c \<in> set ?cached.
      newDate_getTime samplePlatform (Some (JStr (cached_timestamp c))) \<noteq> None"
    by (simp add: sampleCached_def samplePlatform_dates)
  ultimately obtain out where out: "enhancedMessages samplePlatform ?live ?cached = Inr out"
    using enhancedMessages_valid by blast
  from enhancedMessages_dedup [OF d out] out show ?thesis
    by (auto simp: sampleMessage_def sampleCached_def)
qed

text \<open>Two live messages of one id both reach the output.\<close>

theorem enhancedMessages_dedup_counterexample:
  "enhancedMessages samplePlatform
     [sampleMessage ''m1'' 1000 ''hi'' None, sampleMessage ''m1'' 1000 ''hi'' None] []
   = Inr [sampleMessage ''m1'' 1000 ''hi'' None, sampleMessage ''m1'' 1000 ''hi'' None]
   \<and> \<not> distinct (map msg_id
        [sampleMessage ''m1'' 1000 ''hi'' None, sampleMessage ''m1'' 1000 ''hi'' None])"
  by (simp add: enhancedMessages_def allMessages_def messageMap_def enhance_def sampleMessage_def
      Array_sort_def SortCompare_def compareTimestamps_def)

text \<open>
  C2 (amended). An output of the pass is the enhanced union of the live and
  cached messages. An output message carries a \<^verbatim>\<open>replyToMessage\<close> if and only
  if its \<^verbatim>\<open>replyTo\<close> is a non-empty id of a message in the union, or the input
  message already carried one; a message whose \<^verbatim>\<open>replyTo\<close> does not resolve
  passes through unchanged, so a reply without a snapshot whose target is absent
  from both inputs has no snapshot in the output.
\<close>

theorem enhancedMessages_snapshot_iff:
  assumes "enhancedMessages P messages cachedMessages = Inr out"
  shows "Inr ` set out
           = enhance P (messageMap (allMessages P messages cachedMessages))
               ` set (allMessages P messages cachedMessages)
   \<and> msg_id ` set (allMessages P messages cachedMessages)
     = msg_id ` set messages \<union> cached_id ` set cachedMessages
   \<and> (\<forall>m \<in> set (allMessages P messages cachedMessages). \<forall>e.
        enhance P (messageMap (allMessages P messages cachedMessages)) m = Inr e \<longrightarrow>
        (msg_replyToMessage e \<noteq> None)
        = ((\<exists>r. msg_replyTo m = Some r \<and> r \<noteq> []
                \<and> r \<in> msg_id ` set messages \<union> cached_id ` set cachedMessages)
           \<or> msg_replyToMessage m \<noteq> None))
   \<and> (\<forall>m \<in> set (allMessages P messages cachedMessages).
        \<not> (\<exists>r. msg_replyTo m = Some r \<and> r \<noteq> []
                \<and> r \<in> msg_id ` set messages \<union> cached_id ` set cachedMessages)
        \<longrightarrow> enhance P (messageMap (allMessages P messages cachedMessages)) m = Inr m)"
proof -
  let ?all = "allMessages P messages cachedMessages"
  let ?mp = "messageMap ?all"
  obtain ys where ys: "list_all2 (\<lambda>m e. enhance P ?mp m = Inr e) ?all ys"
    and out: "out = Array_sort compareTimestamps ys"
    using assms by (auto simp: enhancedMessages_Inr)
  have ids: "msg_id ` set ?all = msg_id ` set messages \<union> cached_id ` set cachedMessages"
    unfolding allMessages_def by (rule foldl_pushCached_ids)
  have dom: "(?mp r \<noteq> None) = (r \<in> msg_id ` set messages \<union> cached_id ` set cachedMessages)" for r
    using messageMap_dom [of ?all r] ids by simp
  have "map Inr ys = map (enhance P ?mp) ?all"
    using ys by (rule list_all2_map_eq) simp
  then have "set (map Inr ys) = set (map (enhance P ?mp) ?all)" by simp
  then have 1: "Inr ` set out = enhance P ?mp ` set ?all"
    by (simp add: out)
  have 3: "(msg_replyToMessage e \<noteq> None)
        = ((\<exists>r. msg_replyTo m = Some r \<and> r \<noteq> []
                \<and> r \<in> msg_id ` set messages \<union> cached_id ` set cachedMessages)
           \<or> msg_replyToMessage m \<noteq> None)"
    if e: "enhance P ?mp m = Inr e" for m e
  proof (cases "msg_replyTo m")
    case None
    then have "enhance P ?mp m = Inr m" by (simp add: enhance_unresolved)
    with e None show ?thesis by simp
  next
    case (Some r)
    show ?thesis
    proof (cases "r \<noteq> [] \<and> ?mp r \<noteq> None")
      case True
      then obtain t where t: "?mp r = Some t" by auto
      from e enhance_resolved [of m r ?mp t P] Some t True
      have "msg_replyToMessage e \<noteq> None"
        by (auto split: sum.splits)
      with True Some dom [of r] show ?thesis by simp
    next
      case False
      then have "r = [] \<or> ?mp r = None" by auto
      with Some have "enhance P ?mp m = Inr m" by (intro enhance_unresolved) auto
      with e False Some dom [of r] show ?thesis by auto
    qed
  qed
  have 4: "enhance P ?mp m = Inr m"
    if "\<not> (\<exists>r. msg_replyTo m = Some r \<and> r \<noteq> []
                \<and> r \<in> msg_id ` set messages \<union> cached_id ` set cachedMessages)" for m
  proof (cases "msg_replyTo m")
    case None
    then show ?thesis by (simp add: enhance_unresolved)
  next
    case (Some r)
    with that have "r = [] \<or> ?mp r = None" using dom [of r] by auto
    with Some show ?thesis by (intro enhance_unresolved) auto
  qed
  show ?thesis
  proof (intro conjI ballI impI allI)
    show "Inr ` set out = enhance P ?mp ` set ?all" by (rule 1)
    show "msg_id ` set ?all = msg_id ` set messages \<union> cached_id ` set cachedMessages" by (rule ids)
  next
    fix m e :: ChatMessage
    assume "enhance P ?mp m = Inr e"
    then show "(msg_replyToMessage e \<noteq> None)
        = ((\<exists>r. msg_replyTo m = Some r \<and> r \<noteq> []
                \<and> r \<in> msg_id ` set messages \<union> cached_id ` set cachedMessages)
           \<or> msg_replyToMessage m \<noteq> None)" by (rule 3)
  next
    fix m :: ChatMessage
    assume "\<not> (\<exists>r. msg_replyTo m = Some r \<and> r \<noteq> []
                \<and> r \<in> msg_id ` set messages \<union> cached_id ` set cachedMessages)"
    then show "enhance P ?mp m = Inr m" by (rule 4)
  qed
qed

theorem enhancedMessages_snapshot_iff_witness:
  "enhance samplePlatform
     (messageMap (allMessages samplePlatform [sampleMessage ''b1'' 2000 ''hello back'' (Some ''a1'')] []))
     (sampleMessage ''b1'' 2000 ''hello back'' (Some ''a1''))
   = Inr (sampleMessage ''b1'' 2000 ''hello back'' (Some ''a1''))
   \<and> msg_replyToMessage (sampleMessage ''b1'' 2000 ''hello back'' (Some ''a1'')) = None"
proof -
  let ?live = "[sampleMessage ''b1'' 2000 ''hello back'' (Some ''a1'')]"
  have "\<forall>m \<in> set ?live. msg_timestamp m \<noteq> None" by (simp add: sampleMessage_def)
  then obtain out where out: "enhancedMessages samplePlatform ?live [] = Inr out"
    using enhancedMessages_valid [of ?live "[]" samplePlatform] by auto
  from enhancedMessages_snapshot_iff [OF out] show ?thesis
    by (simp add: allMessages_def sampleMessage_def)
qed

text \<open>A reply that arrives with a snapshot keeps it although its target is in neither input.\<close>

theorem enhancedMessages_snapshot_iff_counterexample:
  "enhancedMessages samplePlatform [sampleReply] [] = Inr [sampleReply]
   \<and> msg_replyToMessage sampleReply \<noteq> None
   \<and> msg_replyTo sampleReply = Some ''a1''
   \<and> ''a1'' \<notin> msg_id ` set [sampleReply]"
  by (simp add: enhancedMessages_def allMessages_def messageMap_def enhance_def
      sampleReply_def sampleMessage_def Array_sort_def)





text \<open>
  C6 (amended). When every live message has a valid Date as its timestamp and
  the timestamp string of every cached message denotes a date, the enrichment
  pass returns, the timestamps of its output are non-decreasing, and messages
  of equal timestamp keep the relative order they have in the enhanced union
  (the sort is stable).
\<close>

theorem enhancedMessages_sorted_stable:
  assumes live: "\<forall>m \<in> set messages. msg_timestamp m \<noteq> None"
    and cached: "\<forall>c \<in> set cachedMessages.
                   newDate_getTime P (Some (JStr (cached_timestamp c))) \<noteq> None"
  shows "\<exists>enhanced out ts.
           Array_map (enhance P (messageMap (allMessages P messages cachedMessages)))
             (allMessages P messages cachedMessages) = Inr enhanced
         \<and> enhancedMessages P messages cachedMessages = Inr out
         \<and> map msg_timestamp out = map Some ts \<and> sorted ts
         \<and> (\<forall>t. filter (\<lambda>m. msg_timestamp m = Some t) out
                = filter (\<lambda>m. msg_timestamp m = Some t) enhanced)"
proof -
  let ?f = "\<lambda>m. the (msg_timestamp m)"
  from enhancedMessages_valid [OF live cached]
  obtain ys where ys: "Array_map (enhance P (messageMap (allMessages P messages cachedMessages)))
             (allMessages P messages cachedMessages) = Inr ys"
    and v: "\<forall>m \<in> set ys. msg_timestamp m \<noteq> None"
    and out: "enhancedMessages P messages cachedMessages = Inr (sort_key ?f ys)"
    by blast
  let ?out = "sort_key ?f ys"
  have "map msg_timestamp ?out = map Some (map ?f ?out)"
    using v by (auto simp: comp_def)
  moreover have "sorted (map ?f ?out)" by (rule sorted_sort_key)
  moreover have "filter (\<lambda>m. msg_timestamp m = Some t) ?out
                = filter (\<lambda>m. msg_timestamp m = Some t) ys" for t
  proof -
    have "filter (\<lambda>m. msg_timestamp m = Some t) ?out = filter (\<lambda>m. ?f m = t) ?out"
      using v by (intro filter_cong) auto
    also have "\<dots> = filter (\<lambda>m. ?f m = t) ys" by (rule sort_key_stable)
    also have "\<dots> = filter (\<lambda>m. msg_timestamp m = Some t) ys"
      using v by (intro filter_cong) auto
    finally show ?thesis .
  qed
  ultimately show ?thesis using ys out by blast
qed

theorem enhancedMessages_sorted_stable_witness:
  "\<exists>out ts. enhancedMessages samplePlatform
          [sampleMessage ''m2'' 2000 ''hello back'' (Some ''m1'')]
          [sampleCached ''m1'' ''1970-01-01T00:00:01.000Z'' ''hi'' None] = Inr out
       \<and> map msg_timestamp out = map Some ts \<and> sorted ts"
proof -
  let ?live = "[sampleMessage ''m2'' 2000 ''hello back'' (Some ''m1'')]"
  let ?cached = "[sampleCached ''m1'' ''1970-01-01T00:00:01.000Z'' ''hi'' None]"
  have l: "\<forall>m \<in> set ?live. msg_timestamp m \<noteq> None" by (simp add: sampleMessage_def)
  have c: "\<forall>c \<in> set ?cached.
      newDate_getTime samplePlatform (Some (JStr (cached_timestamp c))) \<noteq> None"
    by (simp add: sampleCached_def samplePlatform_dates)
  from enhancedMessages_sorted_stable [OF l c] show ?thesis by blast
qed

text \<open>
  A cached message whose timestamp string is not a date becomes a message with
  the Invalid Date: the comparator yields NaN against it and the output keeps
  the time values 3000, 1000, 2000 in this order; when such a message is the
  target of a reply the pass raises a RangeError and produces no output.
\<close>

theorem enhancedMessages_sorted_stable_counterexample:
  "(\<exists>out. enhancedMessages samplePlatform [sampleMessage ''a'' 3000 ''x'' None]
            [sampleCached ''b'' ''not a date'' ''y'' None,
             sampleCached ''c'' ''1970-01-01T00:00:01.000Z'' ''z'' None,
             sampleCached ''d'' ''1970-01-01T00:00:02.000Z'' ''w'' None] = Inr out
          \<and> map msg_timestamp out = [Some 3000, None, Some 1000, Some 2000])
   \<and> enhancedMessages samplePlatform [sampleMessage ''a'' 3000 ''x'' (Some ''b'')]
        [sampleCached ''b'' ''not a date'' ''y'' None] = Inl RangeError"
  by (simp add: enhancedMessages_def allMessages_def pushCached_def messageMap_def enhance_def
      toChatMessage_def sampleMessage_def sampleCached_def samplePlatform_dates
      Array_sort_def SortCompare_def compareTimestamps_def Date_toISOString_def)

section \<open>Properties of the store\<close>

lemma map_of_filter_prefix:
  "map_of (filter (\<lambda>(k, v). \<not> prefix p k) al) key
   = (if prefix p key then None else map_of al key)"
  by (induction al) auto

lemma filter_delete_keys:
  "filter (\<lambda>(k', v). k' \<notin> set ks) (AList.delete k al) = filter (\<lambda>(k', v). k' \<notin> set (k # ks)) al"
  by (induction al) (auto simp: AList.delete_eq)

lemma forEach_removeItem_entries:
  "medium st \<noteq> Unavailable \<Longrightarrow>
   forEach_removeItem ks st = (Returned (), st\<lparr>entries := filter (\<lambda>(k, v). k \<notin> set ks) (entries st)\<rparr>)"
proof (induction ks arbitrary: st)
  case Nil
  then show ?case by simp
next
  case (Cons k ks)
  let ?st' = "st\<lparr>entries := AList.delete k (entries st)\<rparr>"
  have r: "removeItem k st = Inr ?st'" using Cons.prems by (simp add: removeItem_def)
  have "medium ?st' \<noteq> Unavailable" using Cons.prems by simp
  from Cons.IH [OF this]
  have "forEach_removeItem ks ?st'
        = (Returned (), ?st'\<lparr>entries := filter (\<lambda>(k', v). k' \<notin> set ks) (entries ?st')\<rparr>)" .
  also have "entries ?st' = AList.delete k (entries st)" by simp
  also have "?st'\<lparr>entries := filter (\<lambda>(k', v). k' \<notin> set ks) (AList.delete k (entries st))\<rparr>
           = st\<lparr>entries := filter (\<lambda>(k', v). k' \<notin> set ks) (AList.delete k (entries st))\<rparr>"
    by simp
  finally have "forEach_removeItem ks ?st'
        = (Returned (), st\<lparr>entries := filter (\<lambda>(k', v). k' \<notin> set (k # ks)) (entries st)\<rparr>)"
    by (simp only: filter_delete_keys)
  with r show ?case by (simp only: forEach_removeItem.simps sum.case)
qed

text \<open>
  C9. On a medium that can be accessed, \<^verbatim>\<open>clearAllCache\<close> returns and leaves
  exactly the entries whose key does not start with \<^verbatim>\<open>chat_messages_\<close>: a
  key with the prefix has no value afterwards, every other key maps to its
  previous value.
\<close>

theorem clearAllCache_frame:
  assumes "medium st \<noteq> Unavailable"
  shows "clearAllCache st
         = (Returned (),
            st\<lparr>entries := filter (\<lambda>(k, v). \<not> prefix CACHE_KEY_PREFIX k) (entries st)\<rparr>)
       \<and> map_of (entries (snd (clearAllCache st))) key
         = (if prefix CACHE_KEY_PREFIX key then None else map_of (entries st) key)"
proof -
  let ?ks = "filter (prefix CACHE_KEY_PREFIX) (map fst (entries st))"
  have same: "filter (\<lambda>(k, v). k \<notin> set ?ks) (entries st)
            = filter (\<lambda>(k, v). \<not> prefix CACHE_KEY_PREFIX k) (entries st)"
    by (rule filter_cong) force+
  have "clearAllCache st = forEach_removeItem ?ks st"
    using assms by (simp add: clearAllCache_def Object_keys_def)
  also have "\<dots> = (Returned (), st\<lparr>entries := filter (\<lambda>(k, v). k \<notin> set ?ks) (entries st)\<rparr>)"
    using assms by (rule forEach_removeItem_entries)
  finally have 1: "clearAllCache st
         = (Returned (),
            st\<lparr>entries := filter (\<lambda>(k, v). \<not> prefix CACHE_KEY_PREFIX k) (entries st)\<rparr>)"
    by (simp only: same)
  have 2: "map_of (filter (\<lambda>(k, v). \<not> prefix CACHE_KEY_PREFIX k) (entries st)) key
         = (if prefix CACHE_KEY_PREFIX key then None else map_of (entries st) key)"
    by (rule map_of_filter_prefix)
  from 1 2 show ?thesis by simp
qed

theorem clearAllCache_frame_witness:
  "medium \<lparr>entries = [(''chat_messages_s1'', Json (JObj [])),
                       (''other_app_setting'', NotJson ''dark''),
                       (''chat_messages_s2'', Json (JObj []))], medium = Working\<rparr> \<noteq> Unavailable
   \<and> clearAllCache \<lparr>entries = [(''chat_messages_s1'', Json (JObj [])),
                       (''other_app_setting'', NotJson ''dark''),
                       (''chat_messages_s2'', Json (JObj []))], medium = Working\<rparr>
     = (Returned (), \<lparr>entries = [(''other_app_setting'', NotJson ''dark'')], medium = Working\<rparr>)"
  using clearAllCache_frame [of "\<lparr>entries = [(''chat_messages_s1'', Json (JObj [])),
                       (''other_app_setting'', NotJson ''dark''),
                       (''chat_messages_s2'', Json (JObj []))], medium = Working\<rparr>"]
  by (simp add: CACHE_KEY_PREFIX_def)

lemma samplePlatform_epoch:
  "newDate_getTime samplePlatform (Some (JStr ''1970-01-01T00:00:00.000Z'')) = Some 0"
  by (simp add: newDate_getTime_def samplePlatform_def isoTable_def)

text \<open>
  C3 (amended). On a medium that can be read, \<^verbatim>\<open>loadMessages\<close> returns the
  empty array and leaves the store as it is when no record exists, when the
  stored text is not JSON, or when it is the JSON \<^verbatim>\<open>null\<close>; when the
  record's \<^verbatim>\<open>lastUpdated\<close> denotes a time more than 24 hours before \<open>now\<close> it
  returns the empty array and deletes the record; otherwise it returns the
  stored \<^verbatim>\<open>messages\<close> value as it is, whatever its shape, or the empty array
  when that value is missing or falsy.
\<close>

theorem loadMessages_cases:
  assumes "medium st \<noteq> Unavailable"
  shows "(map_of (entries st) (getCacheKey sessionId) = None \<longrightarrow>
            loadMessages P now sessionId st = (JArr [], st))
       \<and> (\<forall>s. map_of (entries st) (getCacheKey sessionId) = Some (NotJson s) \<longrightarrow>
            loadMessages P now sessionId st = (JArr [], st))
       \<and> (map_of (entries st) (getCacheKey sessionId) = Some (Json JNull) \<longrightarrow>
            loadMessages P now sessionId st = (JArr [], st))
       \<and> (\<forall>cache lastUpdated t.
            map_of (entries st) (getCacheKey sessionId) = Some (Json cache)
            \<and> getProp cache ''lastUpdated'' = Inr lastUpdated
            \<and> newDate_getTime P lastUpdated = Some t \<and> now - t > CACHE_EXPIRY \<longrightarrow>
            loadMessages P now sessionId st
              = (JArr [], st\<lparr>entries := AList.delete (getCacheKey sessionId) (entries st)\<rparr>)
            \<and> map_of (entries (snd (loadMessages P now sessionId st))) (getCacheKey sessionId) = None)
       \<and> (\<forall>cache lastUpdated.
            map_of (entries st) (getCacheKey sessionId) = Some (Json cache)
            \<and> getProp cache ''lastUpdated'' = Inr lastUpdated
            \<and> \<not> (\<exists>t. newDate_getTime P lastUpdated = Some t \<and> now - t > CACHE_EXPIRY) \<longrightarrow>
            loadMessages P now sessionId st
              = (case getProp cache ''messages'' of
                   Inr (Some messages) \<Rightarrow> if truthy messages then messages else JArr []
                 | _ \<Rightarrow> JArr [],
                 st))"
proof -
  let ?key = "getCacheKey sessionId"
  have g: "getItem st ?key = Inr (map_of (entries st) ?key)"
    using assms by (simp add: getItem_def)
  have 1: "loadMessages P now sessionId st = (JArr [], st)"
    if "map_of (entries st) ?key = None"
    using that by (simp add: loadMessages_def g)
  have 2: "loadMessages P now sessionId st = (JArr [], st)"
    if "map_of (entries st) ?key = Some (NotJson s)" for s
    using that by (simp add: loadMessages_def g truthy_text_def JSON_parse_def)
  have 3: "loadMessages P now sessionId st = (JArr [], st)"
    if "map_of (entries st) ?key = Some (Json JNull)"
    using that by (simp add: loadMessages_def g truthy_text_def JSON_parse_def)
  have 4: "loadMessages P now sessionId st
              = (JArr [], st\<lparr>entries := AList.delete ?key (entries st)\<rparr>)
            \<and> map_of (entries (snd (loadMessages P now sessionId st))) ?key = None"
    if "map_of (entries st) ?key = Some (Json cache)"
      and "getProp cache ''lastUpdated'' = Inr lastUpdated"
      and "newDate_getTime P lastUpdated = Some t" and "now - t > CACHE_EXPIRY"
    for cache lastUpdated t
    using that assms
    by (simp add: loadMessages_def g truthy_text_def JSON_parse_def expired_def
        clearMessages_def removeItem_def AList.delete_conv')
  have 5: "loadMessages P now sessionId st
              = (case getProp cache ''messages'' of
                   Inr (Some messages) \<Rightarrow> if truthy messages then messages else JArr []
                 | _ \<Rightarrow> JArr [],
                 st)"
    if "map_of (entries st) ?key = Some (Json cache)"
      and "getProp cache ''lastUpdated'' = Inr lastUpdated"
      and "\<not> (\<exists>t. newDate_getTime P lastUpdated = Some t \<and> now - t > CACHE_EXPIRY)"
    for cache lastUpdated
  proof -
    have "\<not> expired P now lastUpdated"
      using that(3) by (simp add: expired_def split: option.splits)
    with that(1,2) show ?thesis
      by (simp add: loadMessages_def g truthy_text_def JSON_parse_def
          split: sum.splits option.splits)
  qed
  show ?thesis
    using 1 2 3 4 5 by (intro conjI allI impI) blast+
qed

theorem loadMessages_cases_witness:
  "loadMessages samplePlatform 90000000 ''s1'' (sampleStore (JArr [JObj [(''id'', JStr ''m1'')]]))
     = (JArr [], \<lparr>entries = [], medium = Working\<rparr>)
   \<and> loadMessages samplePlatform 82800000 ''s1'' (sampleStore (JArr [JObj [(''id'', JStr ''m1'')]]))
     = (JArr [JObj [(''id'', JStr ''m1'')]], sampleStore (JArr [JObj [(''id'', JStr ''m1'')]]))
   \<and> loadMessages samplePlatform 82800000 ''s1'' \<lparr>entries = [], medium = Working\<rparr>
     = (JArr [], \<lparr>entries = [], medium = Working\<rparr>)
   \<and> loadMessages samplePlatform 82800000 ''s1''
       \<lparr>entries = [(''chat_messages_s1'', NotJson ''{oops'')], medium = Working\<rparr>
     = (JArr [], \<lparr>entries = [(''chat_messages_s1'', NotJson ''{oops'')], medium = Working\<rparr>)"
  using loadMessages_cases [of "sampleStore (JArr [JObj [(''id'', JStr ''m1'')]])" "''s1''"
          samplePlatform 90000000]
        loadMessages_cases [of "sampleStore (JArr [JObj [(''id'', JStr ''m1'')]])" "''s1''"
          samplePlatform 82800000]
        loadMessages_cases [of "\<lparr>entries = [], medium = Working\<rparr>" "''s1''"
          samplePlatform 82800000]
        loadMessages_cases [of "\<lparr>entries = [(''chat_messages_s1'', NotJson ''{oops'')], medium = Working\<rparr>"
          "''s1''" samplePlatform 82800000]
  by (simp add: sampleStore_def getCacheKey_def CACHE_KEY_PREFIX_def CACHE_EXPIRY_def
      samplePlatform_epoch)

text \<open>
  A record whose \<^verbatim>\<open>messages\<close> is a string is not of the declared shape and is
  returned as it is; a record whose \<^verbatim>\<open>messages\<close> is \<open>0\<close> yields the empty array.
\<close>

theorem loadMessages_cases_counterexample:
  "\<not> is_MessageCache (JObj [(''sessionId'', JStr ''s1''), (''messages'', JStr ''oops''),
                             (''lastUpdated'', JStr ''1970-01-01T00:00:00.000Z'')])
   \<and> fst (loadMessages samplePlatform 1000 ''s1'' (sampleStore (JStr ''oops''))) = JStr ''oops''
   \<and> fst (loadMessages samplePlatform 1000 ''s1'' (sampleStore (JNum 0))) = JArr []"
  by (simp add: is_MessageCache_def loadMessages_def getItem_def sampleStore_def getCacheKey_def
      CACHE_KEY_PREFIX_def CACHE_EXPIRY_def truthy_text_def JSON_parse_def expired_def
      samplePlatform_epoch)

lemma loadMessages_Unavailable:
  "medium st = Unavailable \<Longrightarrow> loadMessages P now sessionId st = (JArr [], st)"
  by (simp add: loadMessages_def getItem_def)

lemma loadMessages_state:
  "snd (loadMessages P now sessionId st) = st
   \<or> (medium st \<noteq> Unavailable
      \<and> loadMessages P now sessionId st
        = (JArr [], st\<lparr>entries := AList.delete (getCacheKey sessionId) (entries st)\<rparr>))"
  by (auto simp: loadMessages_def getItem_def clearMessages_def removeItem_def
      split: sum.splits option.splits)

lemma loadMessages_no_record:
  "map_of (entries st) (getCacheKey sessionId) = None \<Longrightarrow>
   loadMessages P now sessionId st = (JArr [], st)"
  by (simp add: loadMessages_def getItem_def)

lemma loadMessages_again:
  "loadMessages P now sessionId (snd (loadMessages P now sessionId st))
   = loadMessages P now sessionId st"
proof -
  from loadMessages_state [of P now sessionId st] show ?thesis
  proof
    assume "snd (loadMessages P now sessionId st) = st"
    then show ?thesis by simp
  next
    let ?st' = "st\<lparr>entries := AList.delete (getCacheKey sessionId) (entries st)\<rparr>"
    assume a: "medium st \<noteq> Unavailable \<and> loadMessages P now sessionId st = (JArr [], ?st')"
    have "map_of (entries ?st') (getCacheKey sessionId) = None"
      by (simp add: AList.delete_conv')
    then have "loadMessages P now sessionId ?st' = (JArr [], ?st')"
      by (rule loadMessages_no_record)
    with a show ?thesis by simp
  qed
qed

lemma loadMessages_medium [simp]:
  "medium (snd (loadMessages P now sessionId st)) = medium st"
  using loadMessages_state [of P now sessionId st] by auto

lemma saveMessages_not_Working:
  "medium st \<noteq> Working \<Longrightarrow> saveMessages P now sessionId messages st = st"
  by (simp add: saveMessages_def setItem_def Let_def split: medium.splits)

lemma loadMessages_saved:
  assumes "medium st = Working"
    and "newDate_getTime P (Some (JStr (toISOString P now1))) = Some now1"
    and "now2 - now1 \<le> CACHE_EXPIRY"
  shows "loadMessages P now2 sessionId (saveMessages P now1 sessionId (JArr xs) st)
         = (JArr xs, saveMessages P now1 sessionId (JArr xs) st)"
proof -
  let ?cache = "JObj [(''sessionId'', JStr sessionId), (''messages'', JArr xs),
                      (''lastUpdated'', JStr (toISOString P now1))]"
  let ?st' = "st\<lparr>entries := AList.update (getCacheKey sessionId) (Json ?cache) (entries st)\<rparr>"
  have s: "saveMessages P now1 sessionId (JArr xs) st = ?st'"
    using assms(1) by (simp add: saveMessages_def setItem_def JSON_stringify_def)
  have g: "getItem ?st' (getCacheKey sessionId) = Inr (Some (Json ?cache))"
    using assms(1) by (simp add: getItem_def AList.update_conv')
  have e: "\<not> expired P now2 (Some (JStr (toISOString P now1)))"
    using assms(2,3) by (simp add: expired_def)
  have "loadMessages P now2 sessionId ?st' = (JArr xs, ?st')"
    by (simp add: loadMessages_def g truthy_text_def JSON_parse_def e
        del: AList.update.simps)
  then show ?thesis by (simp only: s)
qed

lemma find_id_append:
  "find_id i xs = Inr None \<Longrightarrow> find_id i (xs @ ys) = find_id i ys"
  by (induction xs) (auto split: sum.splits if_splits)

lemma find_id_truthy: "find_id i xs = Inr (Some m) \<Longrightarrow> truthy m"
proof (induction xs)
  case Nil
  then show ?case by simp
next
  case (Cons x xs)
  show ?case
  proof (cases "getProp x ''id'' = Inr (Some (JStr i))")
    case True
    then have "truthy x" by (cases x) auto
    moreover from True Cons.prems have "m = x" by simp
    ultimately show ?thesis by simp
  next
    case False
    with Cons show ?thesis by (auto split: sum.splits if_splits)
  qed
qed

lemma json_of_CachedMessage_id:
  "getProp (json_of_CachedMessage m) ''id'' = Inr (Some (JStr (cached_id m)))"
  by (simp add: json_of_CachedMessage_def)

lemma addMessage_found:
  "loadMessages P now sessionId st = (JArr xs, st1) \<Longrightarrow>
   find_id (cached_id message) xs = Inr (Some x) \<Longrightarrow>
   addMessage P now sessionId message st = (Returned (), st1)"
  by (simp add: addMessage_def Array_find_id_def find_id_truthy)

lemma addMessage_not_found:
  "loadMessages P now sessionId st = (JArr xs, st1) \<Longrightarrow>
   find_id (cached_id message) xs = Inr None \<Longrightarrow>
   addMessage P now sessionId message st
   = (Returned (), saveMessages P now sessionId (JArr (xs @ [json_of_CachedMessage message])) st1)"
  by (simp add: addMessage_def Array_find_id_def spreadArray_def)

lemma addMessage_raised:
  "loadMessages P now sessionId st = (existing, st1) \<Longrightarrow>
   Array_find_id (cached_id message) existing = Inl e \<Longrightarrow>
   addMessage P now sessionId message st = (Raised e, st1)"
  by (simp add: addMessage_def)

lemma samplePlatform_1000:
  "newDate_getTime samplePlatform (Some (JStr (toISOString samplePlatform 1000))) = Some 1000"
  by (simp add: newDate_getTime_def samplePlatform_def isoTable_def)

text \<open>
  C4 (amended). Two calls of \<^verbatim>\<open>addMessage\<close> in succession leave the store that
  one call leaves, provided the record present before the calls does not expire
  between them: the calls read the clock values \<open>now1\<close> and \<open>now2\<close>, at most 24
  hours apart, the second call loads what the first loaded, and the platform
  parses the ISO rendering of \<open>now1\<close> back to \<open>now1\<close>. The message is appended
  and saved when no stored message has its id, and the store is left as loaded
  when one has.
\<close>

theorem addMessage_idempotent:
  assumes rt: "newDate_getTime P (Some (JStr (toISOString P now1))) = Some now1"
    and near: "now2 - now1 \<le> CACHE_EXPIRY"
    and same: "loadMessages P now2 sessionId st = loadMessages P now1 sessionId st"
  shows "snd (addMessage P now2 sessionId message (snd (addMessage P now1 sessionId message st)))
         = snd (addMessage P now1 sessionId message st)
       \<and> (\<forall>xs st1. loadMessages P now1 sessionId st = (JArr xs, st1) \<longrightarrow>
            (find_id (cached_id message) xs = Inr None \<longrightarrow>
               addMessage P now1 sessionId message st
               = (Returned (),
                  saveMessages P now1 sessionId (JArr (xs @ [json_of_CachedMessage message])) st1))
          \<and> (\<forall>x. find_id (cached_id message) xs = Inr (Some x) \<longrightarrow>
               addMessage P now1 sessionId message st = (Returned (), st1)))"
proof -
  obtain existing st1 where l: "loadMessages P now1 sessionId st = (existing, st1)"
    by (cases "loadMessages P now1 sessionId st")
  have l1: "loadMessages P now2 sessionId st1 = (existing, st1)"
    using loadMessages_again [of P now2 sessionId st] l same by simp
  have m1: "medium st1 = medium st"
    using loadMessages_medium [of P now1 sessionId st] l by simp
  have idem: "snd (addMessage P now2 sessionId message (snd (addMessage P now1 sessionId message st)))
         = snd (addMessage P now1 sessionId message st)"
  proof (cases "Array_find_id (cached_id message) existing")
    case (Inl e)
    from addMessage_raised [OF l Inl] addMessage_raised [OF l1 Inl]
    show ?thesis by simp
  next
    case (Inr found)
    then obtain xs where xs: "existing = JArr xs" and f: "find_id (cached_id message) xs = Inr found"
      by (cases existing) (auto simp: Array_find_id_def)
    show ?thesis
    proof (cases found)
      case (Some x)
      from addMessage_found [OF l [unfolded xs]] addMessage_found [OF l1 [unfolded xs]] f Some
      show ?thesis by simp
    next
      case None
      let ?ys = "xs @ [json_of_CachedMessage message]"
      let ?st2 = "saveMessages P now1 sessionId (JArr ?ys) st1"
      have first: "addMessage P now1 sessionId message st = (Returned (), ?st2)"
        using addMessage_not_found [OF l [unfolded xs]] f None by simp
      show ?thesis
      proof (cases "medium st1 = Working")
        case True
        have l2: "loadMessages P now2 sessionId ?st2 = (JArr ?ys, ?st2)"
          using True rt near by (rule loadMessages_saved)
        have "find_id (cached_id message) ?ys = Inr (Some (json_of_CachedMessage message))"
          using f None by (simp add: find_id_append json_of_CachedMessage_id)
        from addMessage_found [OF l2 this] first show ?thesis by simp
      next
        case False
        then have "?st2 = st1" by (rule saveMessages_not_Working)
        moreover from False
        have "saveMessages P now2 sessionId (JArr ?ys) st1 = st1" by (rule saveMessages_not_Working)
        moreover have "addMessage P now2 sessionId message st1
            = (Returned (), saveMessages P now2 sessionId (JArr ?ys) st1)"
          using addMessage_not_found [OF l1 [unfolded xs]] f None by simp
        ultimately show ?thesis using first by simp
      qed
    qed
  qed
  show ?thesis
    using idem addMessage_not_found addMessage_found by blast
qed

theorem addMessage_idempotent_witness:
  "newDate_getTime samplePlatform (Some (JStr (toISOString samplePlatform 1000))) = Some 1000
   \<and> 2000 - 1000 \<le> CACHE_EXPIRY
   \<and> loadMessages samplePlatform 2000 ''s1'' \<lparr>entries = [], medium = Working\<rparr>
     = loadMessages samplePlatform 1000 ''s1'' \<lparr>entries = [], medium = Working\<rparr>
   \<and> snd (addMessage samplePlatform 2000 ''s1'' (sampleCached ''m1'' ''1970-01-01T00:00:01.000Z'' ''hi'' None)
        (snd (addMessage samplePlatform 1000 ''s1'' (sampleCached ''m1'' ''1970-01-01T00:00:01.000Z'' ''hi'' None)
               \<lparr>entries = [], medium = Working\<rparr>)))
     = snd (addMessage samplePlatform 1000 ''s1'' (sampleCached ''m1'' ''1970-01-01T00:00:01.000Z'' ''hi'' None)
               \<lparr>entries = [], medium = Working\<rparr>)"
proof -
  have near: "(2000::int) - 1000 \<le> CACHE_EXPIRY" by (simp add: CACHE_EXPIRY_def)
  have same: "loadMessages samplePlatform 2000 ''s1'' \<lparr>entries = [], medium = Working\<rparr>
     = loadMessages samplePlatform 1000 ''s1'' \<lparr>entries = [], medium = Working\<rparr>"
    by (simp add: loadMessages_def getItem_def)
  from samplePlatform_1000 near same
    addMessage_idempotent [OF samplePlatform_1000 near same]
  show ?thesis by blast
qed

text \<open>
  The record is exactly 24 hours old at the first call, which finds \<open>m1\<close> and
  saves nothing; one millisecond later the second call expires the record and
  saves \<open>m1\<close> alone.
\<close>

theorem addMessage_idempotent_counterexample:
  "snd (addMessage samplePlatform 86400000 ''s1''
         (sampleCached ''m1'' ''1970-01-01T00:00:01.000Z'' ''hi'' None)
         (sampleStore (JArr [JObj [(''id'', JStr ''m0'')], JObj [(''id'', JStr ''m1'')]])))
   = sampleStore (JArr [JObj [(''id'', JStr ''m0'')], JObj [(''id'', JStr ''m1'')]])
   \<and> snd (addMessage samplePlatform 86400001 ''s1''
         (sampleCached ''m1'' ''1970-01-01T00:00:01.000Z'' ''hi'' None)
         (snd (addMessage samplePlatform 86400000 ''s1''
                (sampleCached ''m1'' ''1970-01-01T00:00:01.000Z'' ''hi'' None)
                (sampleStore (JArr [JObj [(''id'', JStr ''m0'')], JObj [(''id'', JStr ''m1'')]])))))
     = \<lparr>entries =
          [(''chat_messages_s1'',
            Json (JObj [(''sessionId'', JStr ''s1''),
                        (''messages'',
                         JArr [json_of_CachedMessage
                                 (sampleCached ''m1'' ''1970-01-01T00:00:01.000Z'' ''hi'' None)]),
                        (''lastUpdated'', JStr ''1970-01-02T00:00:00.001Z'')]))],
        medium = Working\<rparr>"
proof -
  let ?st = "sampleStore (JArr [JObj [(''id'', JStr ''m0'')], JObj [(''id'', JStr ''m1'')]])"
  let ?m = "sampleCached ''m1'' ''1970-01-01T00:00:01.000Z'' ''hi'' None"
  have iso: "toISOString samplePlatform 86400001 = ''1970-01-02T00:00:00.001Z''"
    by (simp add: samplePlatform_def isoTable_def)
  have 1: "addMessage samplePlatform 86400000 ''s1'' ?m ?st = (Returned (), ?st)"
    by (simp add: addMessage_def Array_find_id_def loadMessages_def getItem_def sampleStore_def
        getCacheKey_def CACHE_KEY_PREFIX_def CACHE_EXPIRY_def truthy_text_def JSON_parse_def
        expired_def samplePlatform_epoch sampleCached_def)
  have 2: "snd (addMessage samplePlatform 86400001 ''s1'' ?m ?st)
     = \<lparr>entries =
          [(''chat_messages_s1'',
            Json (JObj [(''sessionId'', JStr ''s1''),
                        (''messages'', JArr [json_of_CachedMessage ?m]),
                        (''lastUpdated'', JStr ''1970-01-02T00:00:00.001Z'')]))],
        medium = Working\<rparr>"
    by (simp add: addMessage_def Array_find_id_def spreadArray_def loadMessages_def getItem_def
        sampleStore_def getCacheKey_def CACHE_KEY_PREFIX_def CACHE_EXPIRY_def truthy_text_def
        JSON_parse_def JSON_stringify_def expired_def samplePlatform_epoch clearMessages_def
        removeItem_def saveMessages_def setItem_def iso)
  from 1 2 show ?thesis by simp
qed

lemma update_fresh: "k \<notin> fst ` set al \<Longrightarrow> AList.update k v al = al @ [(k, v)]"
  by (induction al) auto

lemma foldl_update_fresh:
  "distinct (map fst ps) \<Longrightarrow> fst ` set acc \<inter> fst ` set ps = {} \<Longrightarrow>
   foldl (\<lambda>obj (k, v). AList.update k v obj) acc ps = acc @ ps"
proof (induction ps arbitrary: acc)
  case Nil
  then show ?case by simp
next
  case (Cons p ps)
  obtain k v where p: "p = (k, v)" by (cases p)
  have fresh: "k \<notin> fst ` set acc" using Cons.prems(2) p by auto
  have "fst ` set (acc @ [(k, v)]) \<inter> fst ` set ps = {}"
    using Cons.prems p by auto
  moreover have "distinct (map fst ps)" using Cons.prems(1) by simp
  ultimately have "foldl (\<lambda>obj (k, v). AList.update k v obj) (acc @ [(k, v)]) ps = (acc @ [(k, v)]) @ ps"
    by (rule Cons.IH [rotated])
  then show ?case using fresh p by (simp add: update_fresh)
qed

lemma foldl_update_distinct:
  "distinct (map fst acc) \<Longrightarrow> distinct (map fst (foldl (\<lambda>obj (k, v). AList.update k v obj) acc ps))"
  by (induction ps arbitrary: acc) (auto simp: AList.distinct_update)

lemma objectLiteral_snoc2:
  "objectLiteral (ps @ [(k1, v1), (k2, v2)])
   = JObj (AList.update k2 v2 (AList.update k1 v1
            (foldl (\<lambda>obj (k, v). AList.update k v obj) [] ps)))"
  by (simp add: objectLiteral_def)

lemma updateParticipantState_Working:
  assumes "medium st = Working"
    and "map_of (entries st) (stateKey sessionId participantId) = None \<and> currentState = JObj []
       \<or> map_of (entries st) (stateKey sessionId participantId) = Some (NotJson []) \<and> currentState = JObj []
       \<or> map_of (entries st) (stateKey sessionId participantId) = Some (Json currentState)"
  shows "updateParticipantState now sessionId participantId state st
         = st\<lparr>entries := AList.update (stateKey sessionId participantId)
               (Json (objectLiteral (ownProps currentState
                        @ optional ''isMuted'' JBool (isMuted state)
                        @ optional ''isKicked'' JBool (isKicked state)
                        @ [(''lastUpdated'', JNum now)])))
               (entries st)\<rparr>"
  using assms
  by (auto simp: updateParticipantState_def getItem_def truthy_text_def JSON_parse_def
      JSON_stringify_def setItem_def Let_def)

lemma getParticipantState_kept:
  "getItem st (stateKey sessionId participantId) = Inr (Some (Json (JObj fs))) \<Longrightarrow>
   stateAge P now (map_of fs ''lastUpdated'') = Some a \<Longrightarrow> a \<le> 60 * 60 * 1000 \<Longrightarrow>
   getParticipantState P now sessionId participantId st = (JObj fs, st)"
  by (simp add: getParticipantState_def truthy_text_def JSON_parse_def)

text \<open>
  C7 (amended). On a working medium whose previous state for the participant,
  if any, parses, \<^verbatim>\<open>updateParticipantState\<close> with \<^verbatim>\<open>{isMuted: true}\<close> and then
  with \<^verbatim>\<open>{isKicked: true}\<close> makes \<^verbatim>\<open>getParticipantState\<close>, read within one hour
  of the second update, return an object with \<^verbatim>\<open>isMuted\<close> and \<^verbatim>\<open>isKicked\<close>
  true and with \<^verbatim>\<open>lastUpdated\<close> the time of the second update; with no
  previous state these three are its only fields.
\<close>

theorem participantState_merge:
  assumes w: "medium st = Working"
    and prior: "\<forall>s. map_of (entries st) (stateKey sessionId participantId) = Some (NotJson s) \<longrightarrow> s = []"
    and age: "now3 - now2 \<le> 60 * 60 * 1000"
  shows "(\<exists>fs. fst (getParticipantState P now3 sessionId participantId
                 (updateParticipantState now2 sessionId participantId \<lparr>isMuted = None, isKicked = Some True\<rparr>
                   (updateParticipantState now1 sessionId participantId \<lparr>isMuted = Some True, isKicked = None\<rparr> st)))
               = JObj fs
             \<and> map_of fs ''isMuted'' = Some (JBool True)
             \<and> map_of fs ''isKicked'' = Some (JBool True)
             \<and> map_of fs ''lastUpdated'' = Some (JNum now2))
       \<and> (map_of (entries st) (stateKey sessionId participantId) = None \<longrightarrow>
            fst (getParticipantState P now3 sessionId participantId
                 (updateParticipantState now2 sessionId participantId \<lparr>isMuted = None, isKicked = Some True\<rparr>
                   (updateParticipantState now1 sessionId participantId \<lparr>isMuted = Some True, isKicked = None\<rparr> st)))
            = JObj [(''isMuted'', JBool True), (''lastUpdated'', JNum now2), (''isKicked'', JBool True)])"
proof -
  let ?key = "stateKey sessionId participantId"
  let ?U = "foldl (\<lambda>obj (k, v). AList.update k v obj) []"
  obtain v0 where v0:
    "map_of (entries st) ?key = None \<and> v0 = JObj []
     \<or> map_of (entries st) ?key = Some (NotJson []) \<and> v0 = JObj []
     \<or> map_of (entries st) ?key = Some (Json v0)"
  proof (cases "map_of (entries st) ?key")
    case None
    then show ?thesis using that by simp
  next
    case (Some t)
    show ?thesis
    proof (cases t)
      case (NotJson s)
      with Some prior have "s = []" by simp
      with Some NotJson show ?thesis using that by simp
    next
      case (Json v)
      with Some show ?thesis using that by simp
    qed
  qed
  let ?fs1 = "AList.update ''lastUpdated'' (JNum now1)
               (AList.update ''isMuted'' (JBool True) (?U (ownProps v0)))"
  let ?st1 = "st\<lparr>entries := AList.update ?key (Json (JObj ?fs1)) (entries st)\<rparr>"
  have st1: "updateParticipantState now1 sessionId participantId \<lparr>isMuted = Some True, isKicked = None\<rparr> st = ?st1"
    using updateParticipantState_Working [OF w v0, of now1 "\<lparr>isMuted = Some True, isKicked = None\<rparr>"]
    by (simp add: optional_def objectLiteral_snoc2)
  let ?fs2 = "AList.update ''lastUpdated'' (JNum now2) (AList.update ''isKicked'' (JBool True) ?fs1)"
  let ?st2 = "?st1\<lparr>entries := AList.update ?key (Json (JObj ?fs2)) (entries ?st1)\<rparr>"
  have U1: "?U ?fs1 = ?fs1"
  proof -
    have "distinct (map fst ?fs1)"
      by (intro AList.distinct_update foldl_update_distinct) simp
    from foldl_update_fresh [OF this, of "[]"] show ?thesis by simp
  qed
  have w1: "medium ?st1 = Working" using w by simp
  have cur1: "map_of (entries ?st1) ?key = Some (Json (JObj ?fs1))"
    by (simp add: AList.update_conv')
  have a: "updateParticipantState now2 sessionId participantId \<lparr>isMuted = None, isKicked = Some True\<rparr> ?st1
           = ?st1\<lparr>entries := AList.update ?key
               (Json (objectLiteral (ownProps (JObj ?fs1)
                        @ optional ''isMuted'' JBool (isMuted \<lparr>isMuted = None, isKicked = Some True\<rparr>)
                        @ optional ''isKicked'' JBool (isKicked \<lparr>isMuted = None, isKicked = Some True\<rparr>)
                        @ [(''lastUpdated'', JNum now2)])))
               (entries ?st1)\<rparr>"
    by (rule updateParticipantState_Working [OF w1]) (use cur1 in blast)
  have "ownProps (JObj ?fs1)
          @ optional ''isMuted'' JBool (isMuted \<lparr>isMuted = None, isKicked = Some True\<rparr>)
          @ optional ''isKicked'' JBool (isKicked \<lparr>isMuted = None, isKicked = Some True\<rparr>)
          @ [(''lastUpdated'', JNum now2)]
        = ?fs1 @ [(''isKicked'', JBool True), (''lastUpdated'', JNum now2)]"
    by (simp add: optional_def del: AList.update.simps)
  then have b: "objectLiteral (ownProps (JObj ?fs1)
          @ optional ''isMuted'' JBool (isMuted \<lparr>isMuted = None, isKicked = Some True\<rparr>)
          @ optional ''isKicked'' JBool (isKicked \<lparr>isMuted = None, isKicked = Some True\<rparr>)
          @ [(''lastUpdated'', JNum now2)]) = JObj ?fs2"
    by (simp only: objectLiteral_snoc2 U1)
  have st2: "updateParticipantState now2 sessionId participantId \<lparr>isMuted = None, isKicked = Some True\<rparr> ?st1 = ?st2"
    by (simp only: a b)
  have cur2: "getItem ?st2 ?key = Inr (Some (Json (JObj ?fs2)))"
    using w by (simp add: getItem_def AList.update_conv')
  have lu: "map_of ?fs2 ''lastUpdated'' = Some (JNum now2)"
    by (simp add: AList.update_conv')
  have "stateAge P now3 (Some (JNum now2)) = Some (now3 - now2)"
    by (simp add: stateAge_def js_ToNumber_def)
  then have sa: "stateAge P now3 (map_of ?fs2 ''lastUpdated'') = Some (now3 - now2)"
    by (simp only: lu)
  have get: "getParticipantState P now3 sessionId participantId ?st2 = (JObj ?fs2, ?st2)"
    using cur2 sa age by (rule getParticipantState_kept)
  have flags: "map_of ?fs2 ''isMuted'' = Some (JBool True) \<and> map_of ?fs2 ''isKicked'' = Some (JBool True)"
    by (simp add: AList.update_conv')
  have fresh: "?fs2 = [(''isMuted'', JBool True), (''lastUpdated'', JNum now2), (''isKicked'', JBool True)]"
    if "map_of (entries st) ?key = None"
  proof -
    from that v0 have "v0 = JObj []" by auto
    then show ?thesis by simp
  qed
  show ?thesis
    using flags lu fresh by (simp only: st1 st2 get fst_conv) blast
qed

theorem participantState_merge_witness:
  "fst (getParticipantState samplePlatform 3000 ''s1'' ''p1''
         (updateParticipantState 2000 ''s1'' ''p1'' \<lparr>isMuted = None, isKicked = Some True\<rparr>
           (updateParticipantState 1000 ''s1'' ''p1'' \<lparr>isMuted = Some True, isKicked = None\<rparr>
             \<lparr>entries = [], medium = Working\<rparr>)))
   = JObj [(''isMuted'', JBool True), (''lastUpdated'', JNum 2000), (''isKicked'', JBool True)]"
  using participantState_merge [of "\<lparr>entries = [], medium = Working\<rparr>" "''s1''" "''p1''"
      3000 2000 samplePlatform 1000]
  by simp

text \<open>The object returned on a fresh store has the field \<^verbatim>\<open>lastUpdated\<close> as well.\<close>

theorem participantState_merge_counterexample:
  "fst (getParticipantState samplePlatform 3000 ''s1'' ''p1''
         (updateParticipantState 2000 ''s1'' ''p1'' \<lparr>isMuted = None, isKicked = Some True\<rparr>
           (updateParticipantState 1000 ''s1'' ''p1'' \<lparr>isMuted = Some True, isKicked = None\<rparr>
             \<lparr>entries = [], medium = Working\<rparr>)))
   = JObj [(''isMuted'', JBool True), (''lastUpdated'', JNum 2000), (''isKicked'', JBool True)]
   \<and> map_of [(''isMuted'', JBool True), (''lastUpdated'', JNum 2000), (''isKicked'', JBool True)]
        ''lastUpdated''
     \<noteq> map_of [(''isMuted'', JBool True), (''isKicked'', JBool True)] ''lastUpdated''"
  by (simp add: getParticipantState_def updateParticipantState_def getItem_def setItem_def
      stateKey_def truthy_text_def JSON_parse_def JSON_stringify_def objectLiteral_def
      optional_def stateAge_def js_ToNumber_def)

text \<open>
  C8. The operations without \<^verbatim>\<open>try\<close>/\<^verbatim>\<open>catch\<close> raise past their boundary:
  \<^verbatim>\<open>clearMessages\<close> and \<^verbatim>\<open>clearAllCache\<close> when the medium raises, and
  \<^verbatim>\<open>addMessage\<close> when the stored \<^verbatim>\<open>messages\<close> is not an array.
\<close>

theorem unguarded_operations_raise:
  "fst (clearMessages ''s1'' \<lparr>entries = [], medium = Unavailable\<rparr>) = Raised SecurityError
   \<and> fst (clearAllCache \<lparr>entries = [], medium = Unavailable\<rparr>) = Raised SecurityError
   \<and> fst (addMessage samplePlatform 1000 ''s1''
            (sampleCached ''m1'' ''1970-01-01T00:00:01.000Z'' ''hi'' None)
            (sampleStore (JNum 5))) = Raised TypeError"
  by (simp add: clearMessages_def clearAllCache_def removeItem_def Object_keys_def
      addMessage_def Array_find_id_def
      loadMessages_def getItem_def sampleStore_def getCacheKey_def
      CACHE_KEY_PREFIX_def CACHE_EXPIRY_def truthy_text_def JSON_parse_def expired_def
      samplePlatform_epoch)

text \<open>
  C10 (amended). A stored participant state without \<^verbatim>\<open>lastUpdated\<close> has the
  current clock value as its age; when the current time is more than one hour
  past the epoch, \<^verbatim>\<open>getParticipantState\<close> deletes the record and returns the
  empty object, whatever flags it holds.
\<close>

theorem getParticipantState_missing_lastUpdated:
  assumes "medium st \<noteq> Unavailable"
    and "map_of (entries st) (stateKey sessionId participantId) = Some (Json (JObj fs))"
    and "map_of fs ''lastUpdated'' = None"
    and "now > 60 * 60 * 1000"
  shows "stateAge P now (map_of fs ''lastUpdated'') = Some now
       \<and> getParticipantState P now sessionId participantId st
         = (JObj [], st\<lparr>entries := AList.delete (stateKey sessionId participantId) (entries st)\<rparr>)"
proof -
  have age: "stateAge P now (map_of fs ''lastUpdated'') = Some now"
    using assms(3) by (simp add: stateAge_def js_ToNumber_def)
  have "getItem st (stateKey sessionId participantId) = Inr (Some (Json (JObj fs)))"
    using assms(1,2) by (simp add: getItem_def)
  then have "getParticipantState P now sessionId participantId st
         = (JObj [], st\<lparr>entries := AList.delete (stateKey sessionId participantId) (entries st)\<rparr>)"
    using assms(1,4) age
    by (simp add: getParticipantState_def truthy_text_def JSON_parse_def removeItem_def)
  with age show ?thesis by simp
qed

theorem getParticipantState_missing_lastUpdated_witness:
  "getParticipantState samplePlatform 3600001 ''s1'' ''p1''
     \<lparr>entries = [(''participant_state_s1_p1'', Json (JObj [(''isMuted'', JBool True)]))],
      medium = Working\<rparr>
   = (JObj [], \<lparr>entries = [], medium = Working\<rparr>)"
  using getParticipantState_missing_lastUpdated [of
      "\<lparr>entries = [(''participant_state_s1_p1'', Json (JObj [(''isMuted'', JBool True)]))],
        medium = Working\<rparr>" "''s1''" "''p1''" "[(''isMuted'', JBool True)]" 3600001 samplePlatform]
  by (simp add: stateKey_def)

text \<open>At exactly one hour past the epoch the record is kept and returned.\<close>

theorem getParticipantState_missing_lastUpdated_counterexample:
  "getParticipantState samplePlatform 3600000 ''s1'' ''p1''
     \<lparr>entries = [(''participant_state_s1_p1'', Json (JObj [(''isMuted'', JBool True)]))],
      medium = Working\<rparr>
   = (JObj [(''isMuted'', JBool True)],
      \<lparr>entries = [(''participant_state_s1_p1'', Json (JObj [(''isMuted'', JBool True)]))],
       medium = Working\<rparr>)"
  by (simp add: getParticipantState_def getItem_def stateKey_def truthy_text_def JSON_parse_def
      stateAge_def js_ToNumber_def)

end
